theory Spec2Isabelle
  imports Complex_Main
begin

section \<open>Gesture-Particle-Morph: gestures, debouncing, target fields and the morph step\<close>

text \<open>
  JavaScript numbers are IEEE doubles; their arithmetic is modelled as exact real
  arithmetic. The cells of the \<^verbatim>\<open>Float32Array\<close>s that the morph step writes (the live
  positions and colours, and the attribute arrays) hold single-precision numbers: every
  store into them rounds. The target field generators run once, and their cells are
  taken as the exact values of what is stored. Integers that count things (buffer
  lengths, pixel indices, particle indices) are natural numbers.
\<close>

subsection \<open>types.ts\<close>

datatype GestureType = RESET | ONE | TWO | THREE | LOVE

record HandState =
  gesture :: GestureType
  isTracking :: bool

text \<open>What a JavaScript run can end with instead of a result.\<close>

datatype error = TypeError

subsection \<open>HandManager: finger states (predictWebcam, lines 99-124)\<close>

text \<open>A MediaPipe landmark; only \<open>x\<close> and \<open>y\<close> are read by the code.\<close>

record landmark =
  coord_x :: real
  coord_y :: real
  coord_z :: real

definition distSq :: "landmark \<Rightarrow> landmark \<Rightarrow> real" where
  "distSq p1 p2 = (coord_x p1 - coord_x p2) ^ 2 + (coord_y p1 - coord_y p2) ^ 2"

definition palmScaleSq :: "landmark list \<Rightarrow> real" where
  "palmScaleSq lm = distSq (lm ! 0) (lm ! 5)"

definition isFingerOpen :: "landmark list \<Rightarrow> nat \<Rightarrow> nat \<Rightarrow> bool" where
  "isFingerOpen lm tipIdx pipIdx \<longleftrightarrow>
     distSq (lm ! 0) (lm ! tipIdx) > distSq (lm ! 0) (lm ! pipIdx) * 1.1"

definition thumbTipToIdxMcp :: "landmark list \<Rightarrow> real" where
  "thumbTipToIdxMcp lm = distSq (lm ! 4) (lm ! 5)"

record fingerStates =
  thumbOpen :: bool
  indexOpen :: bool
  middleOpen :: bool
  ringOpen :: bool
  pinkyOpen :: bool

definition fingerStatesOf :: "landmark list \<Rightarrow> fingerStates" where
  "fingerStatesOf lm =
     \<lparr> thumbOpen = thumbTipToIdxMcp lm > palmScaleSq lm * 0.6,
       indexOpen = isFingerOpen lm 8 6,
       middleOpen = isFingerOpen lm 12 10,
       ringOpen = isFingerOpen lm 16 14,
       pinkyOpen = isFingerOpen lm 20 18 \<rparr>"

subsection \<open>HandManager: classification rules (predictWebcam, lines 126-170)\<close>

definition classifyFingers :: "fingerStates \<Rightarrow> GestureType" where
  "classifyFingers f =
     (if indexOpen f \<and> middleOpen f \<and> ringOpen f \<and> pinkyOpen f then LOVE
      else if indexOpen f \<and> middleOpen f \<and> ringOpen f \<and> \<not> pinkyOpen f then THREE
      else if thumbOpen f \<and> indexOpen f \<and> middleOpen f \<and> \<not> ringOpen f \<and> \<not> pinkyOpen f
        then THREE
      else if indexOpen f \<and> middleOpen f \<and> \<not> ringOpen f \<and> \<not> pinkyOpen f then TWO
      else if thumbOpen f \<and> indexOpen f \<and> \<not> middleOpen f \<and> \<not> ringOpen f \<and> \<not> pinkyOpen f
        then TWO
      else if indexOpen f \<and> \<not> middleOpen f \<and> \<not> ringOpen f \<and> \<not> pinkyOpen f then ONE
      else RESET)"

text \<open>
  \<open>results.landmarks\<close> is the list of detected hands, each a list of landmarks.
  With no hand the gesture is \<open>RESET\<close>. With a hand, the first one is read at the
  indices 0, 4, 5, 6, 8, 10, 12, 14, 16, 18 and 20; an index beyond the array gives
  \<^verbatim>\<open>undefined\<close>, whose \<^verbatim>\<open>.x\<close> raises a TypeError.
\<close>

definition detectGesture :: "landmark list list \<Rightarrow> error + GestureType" where
  "detectGesture landmarks =
     (if length landmarks > 0 then
        (let lm = landmarks ! 0 in
         if length lm < 21 then Inl TypeError
         else Inr (classifyFingers (fingerStatesOf lm)))
      else Inr RESET)"

text \<open>The classifier on the five finger-open bits, with the hand possibly absent.\<close>

definition classifyFrame :: "fingerStates option \<Rightarrow> GestureType" where
  "classifyFrame hand = (case hand of None \<Rightarrow> RESET | Some f \<Rightarrow> classifyFingers f)"

subsection \<open>The rule list of the specification\<close>

text \<open>An ordered list of guarded rules; the first guard that holds decides.\<close>

fun firstMatch :: "(('a \<Rightarrow> bool) \<times> 'b) list \<Rightarrow> 'b \<Rightarrow> 'a \<Rightarrow> 'b" where
  "firstMatch [] d a = d"
| "firstMatch ((guard, label) # rules) d a = (if guard a then label else firstMatch rules d a)"

definition gestureRules :: "((fingerStates \<Rightarrow> bool) \<times> GestureType) list" where
  "gestureRules =
     [(\<lambda>f. indexOpen f \<and> middleOpen f \<and> ringOpen f \<and> pinkyOpen f, LOVE),
      (\<lambda>f. indexOpen f \<and> middleOpen f \<and> ringOpen f \<and> \<not> pinkyOpen f, THREE),
      (\<lambda>f. thumbOpen f \<and> indexOpen f \<and> middleOpen f \<and> \<not> ringOpen f \<and> \<not> pinkyOpen f, THREE),
      (\<lambda>f. indexOpen f \<and> middleOpen f \<and> \<not> ringOpen f \<and> \<not> pinkyOpen f, TWO),
      (\<lambda>f. thumbOpen f \<and> indexOpen f \<and> \<not> middleOpen f \<and> \<not> ringOpen f \<and> \<not> pinkyOpen f, TWO),
      (\<lambda>f. indexOpen f \<and> \<not> middleOpen f \<and> \<not> ringOpen f \<and> \<not> pinkyOpen f, ONE)]"

definition classifySpec :: "fingerStates option \<Rightarrow> GestureType" where
  "classifySpec hand = (case hand of None \<Rightarrow> RESET | Some f \<Rightarrow> firstMatch gestureRules RESET f)"

text \<open>The squared distance of the specification, between two named landmarks.\<close>

definition squaredDistance :: "landmark \<Rightarrow> landmark \<Rightarrow> real" where
  "squaredDistance a b = (coord_x a - coord_x b)\<^sup>2 + (coord_y a - coord_y b)\<^sup>2"

definition wrist :: "landmark list \<Rightarrow> landmark" where "wrist lm = lm ! 0"
definition thumbTip :: "landmark list \<Rightarrow> landmark" where "thumbTip lm = lm ! 4"
definition indexMCP :: "landmark list \<Rightarrow> landmark" where "indexMCP lm = lm ! 5"

subsection \<open>HandManager: signal smoothing (predictWebcam, lines 172-200)\<close>

text \<open>
  The two refs of the component: the smoothing buffer and the last emitted gesture.
  Initially the buffer is empty and the last emitted gesture is \<open>RESET\<close>.
\<close>

record debouncer =
  gestureBuffer :: "GestureType list"
  lastEmittedGesture :: GestureType

definition BUFFER_SIZE :: nat where
  "BUFFER_SIZE = 3"

definition initialDebouncer :: debouncer where
  "initialDebouncer = \<lparr> gestureBuffer = [], lastEmittedGesture = RESET \<rparr>"

text \<open>\<^verbatim>\<open>push\<close>, then one \<^verbatim>\<open>shift\<close> when the buffer became longer than \<open>BUFFER_SIZE\<close>.\<close>

definition pushGesture :: "GestureType list \<Rightarrow> GestureType \<Rightarrow> GestureType list" where
  "pushGesture buf g = (let b = buf @ [g] in if length b > BUFFER_SIZE then tl b else b)"

text \<open>
  One round of the \<^verbatim>\<open>forEach\<close>: the tally \<open>counts\<close>, \<open>maxCount\<close> and
  \<open>smoothGesture\<close>. A missing key of \<open>counts\<close> reads as 0.
\<close>

type_synonym tally = "(GestureType \<rightharpoonup> nat) \<times> nat \<times> GestureType"

definition countGesture :: "GestureType \<Rightarrow> tally \<Rightarrow> tally" where
  "countGesture g st =
     (case st of (counts, maxCount, smoothGesture) \<Rightarrow>
        (let c = (case counts g of None \<Rightarrow> 0 | Some k \<Rightarrow> k) + 1;
             counts' = counts(g \<mapsto> c)
         in if c > maxCount then (counts', c, g) else (counts', maxCount, smoothGesture)))"

definition modeScan :: "GestureType list \<Rightarrow> GestureType \<Rightarrow> tally" where
  "modeScan buf lastEmitted = fold countGesture buf (Map.empty, 0, lastEmitted)"

text \<open>
  The smoothing part of one frame: the new refs, and the argument of
  \<open>onHandUpdate\<close> when it is called. \<open>hands\<close> is the number of detected hands.
\<close>

definition smoothGestureStep ::
  "debouncer \<Rightarrow> GestureType \<Rightarrow> nat \<Rightarrow> debouncer \<times> HandState option" where
  "smoothGestureStep s detectedGesture hands =
     (let buf = pushGesture (gestureBuffer s) detectedGesture in
      case modeScan buf (lastEmittedGesture s) of (counts, maxCount, smoothGesture) \<Rightarrow>
        if real maxCount > real BUFFER_SIZE / 2 then
          if smoothGesture \<noteq> lastEmittedGesture s then
            (\<lparr> gestureBuffer = buf, lastEmittedGesture = smoothGesture \<rparr>,
             Some \<lparr> gesture = smoothGesture, isTracking = hands > 0 \<rparr>)
          else (s\<lparr> gestureBuffer := buf \<rparr>, None)
        else (s\<lparr> gestureBuffer := buf \<rparr>, None))"

text \<open>One video frame: classification, then smoothing.\<close>

definition predictWebcam ::
  "debouncer \<Rightarrow> landmark list list \<Rightarrow> error + debouncer \<times> HandState option" where
  "predictWebcam s landmarks =
     (case detectGesture landmarks of
        Inl e \<Rightarrow> Inl e
      | Inr detectedGesture \<Rightarrow> Inr (smoothGestureStep s detectedGesture (length landmarks)))"

text \<open>The states the component can be in: the initial one and every successor.\<close>

inductive reachable :: "debouncer \<Rightarrow> bool" where
  reachable_init: "reachable initialDebouncer"
| reachable_step: "reachable s \<Longrightarrow> reachable (fst (smoothGestureStep s g hands))"

text \<open>
  Feeding the same raw gesture again and again, with any hand counts: the list of
  what each frame emitted.
\<close>

fun sustain :: "debouncer \<Rightarrow> GestureType \<Rightarrow> nat list \<Rightarrow> HandState option list" where
  "sustain s g [] = []"
| "sustain s g (hands # rest) =
     snd (smoothGestureStep s g hands) # sustain (fst (smoothGestureStep s g hands)) g rest"

subsection \<open>The debouncer of the specification\<close>

text \<open>
  The buffer keeps the last \<open>BUFFER_SIZE\<close> labels. The modal count is the largest
  number of occurrences of a label; the modal label is the first label, in scan order,
  that occurs that often.
\<close>

definition lastN :: "nat \<Rightarrow> 'a list \<Rightarrow> 'a list" where
  "lastN n xs = drop (length xs - n) xs"

definition modalCount :: "GestureType list \<Rightarrow> nat" where
  "modalCount buf = fold max (map (count_list buf) buf) 0"

definition modalLabel :: "GestureType list \<Rightarrow> GestureType option" where
  "modalLabel buf = find (\<lambda>g. count_list buf g = modalCount buf) buf"

subsection \<open>particleUtils: the cloud field (generateCloudParticles, lines 109-129)\<close>

text \<open>
  A field is a pair of flat arrays, three cells per particle. \<open>Math.random\<close> is a
  sequence of reals: \<open>rnd k\<close> is what the \<open>k\<close>-th call of a generator returns
  (a value in \<open>[0, 1)\<close>, which the theorems that need it assume).
\<close>

record particleField =
  positions :: "real list"
  colors :: "real list"

text \<open>\<^verbatim>\<open>new Float32Array(particleCount * 3)\<close>, twice: all cells are zero.\<close>

definition zeroField :: "nat \<Rightarrow> particleField" where
  "zeroField particleCount =
     \<lparr> positions = replicate (particleCount * 3) 0, colors = replicate (particleCount * 3) 0 \<rparr>"

definition cloudParticle :: "(nat \<Rightarrow> real) \<Rightarrow> nat \<Rightarrow> particleField \<Rightarrow> particleField" where
  "cloudParticle rnd i f =
     (let r = 10 * root 3 (rnd (3 * i));
          theta = rnd (3 * i + 1) * 2 * pi;
          phi = arccos (2 * rnd (3 * i + 2) - 1)
      in \<lparr> positions = (positions f)
             [i * 3 := r * sin phi * cos theta,
              i * 3 + 1 := r * sin phi * sin theta,
              i * 3 + 2 := r * cos phi],
           colors = (colors f) [i * 3 := 0.1, i * 3 + 1 := 0.15, i * 3 + 2 := 0.2] \<rparr>)"

definition generateCloudParticles :: "(nat \<Rightarrow> real) \<Rightarrow> nat \<Rightarrow> particleField" where
  "generateCloudParticles rnd particleCount =
     fold (cloudParticle rnd) [0..<particleCount] (zeroField particleCount)"

subsection \<open>particleUtils: text fields (generateTextParticles, lines 6-107)\<close>

text \<open>
  The canvas belongs to the browser. Its 2D context is taken as a parameter: how wide
  it measures a text in a font, and the RGBA bytes \<open>getImageData\<close> returns for a
  canvas of a given width and height after a list of drawing commands. The fill style,
  the font and the text of each \<open>fillText\<close> are the arguments of its command.
  \<open>ArialFont\<close> stands for \<^verbatim>\<open>900 120px Arial, sans-serif\<close> and \<open>EmojiFont\<close> for the
  emoji font list of line 44. The image data of a canvas of width \<open>w\<close> and height
  \<open>h\<close> has \<open>4 * w * h\<close> bytes; the theorems that read pixels assume this length, so
  that no read is out of range.
\<close>

datatype font = ArialFont | EmojiFont

datatype drawCmd =
  FillRect string real real real real
| FillText string font string real real

record canvas2D =
  measureText :: "font \<Rightarrow> string \<Rightarrow> real"
  getImageData :: "nat \<Rightarrow> nat \<Rightarrow> drawCmd list \<Rightarrow> nat list"

definition fontSize :: real where
  "fontSize = 120"

text \<open>The heart emoji (U+2764 U+FE0F) and the text of the \<open>LOVE\<close> gesture, as UTF-8.\<close>

definition heartGlyph :: string where
  "heartGlyph = [CHR 0xE2, CHR 0x9D, CHR 0xA4, CHR 0xEF, CHR 0xB8, CHR 0x8F]"

definition loveText :: string where
  "loveText = ''I '' @ heartGlyph @ '' U''"

definition drawCommands :: "string \<Rightarrow> real \<Rightarrow> real \<Rightarrow> drawCmd list" where
  "drawCommands text w h =
     FillRect ''#000000'' 0 0 w h #
     (if text = loveText then
        (let cx = w / 2; cy = h / 2 in
         [FillText ''#FFFFFF'' ArialFont ''I'' (cx - fontSize * 1.2) cy,
          FillText ''#FF0000'' EmojiFont heartGlyph cx cy,
          FillText ''#FFFFFF'' ArialFont ''U'' (cx + fontSize * 1.2) cy])
      else [FillText ''#FFFFFF'' ArialFont text (w / 2) (h / 2)])"

record pixelColor =
  red :: real
  green :: real
  blue :: real

text \<open>One round of the pixel loop (lines 63-73): a lit pixel is pushed with its colour.\<close>

definition scanPixel ::
  "nat list \<Rightarrow> nat \<Rightarrow> nat list \<times> pixelColor list \<Rightarrow> nat list \<times> pixelColor list" where
  "scanPixel data i acc =
     (case acc of (validPixels, pixelColors) \<Rightarrow>
        (let r = data ! (i * 4); g = data ! (i * 4 + 1); b = data ! (i * 4 + 2) in
         if r > 30 \<or> g > 30 \<or> b > 30 then
           (validPixels @ [i],
            pixelColors @ [\<lparr> red = real r / 255, green = real g / 255, blue = real b / 255 \<rparr>])
         else (validPixels, pixelColors)))"

definition litPixels :: "nat list \<Rightarrow> nat \<Rightarrow> nat \<Rightarrow> nat list \<times> pixelColor list" where
  "litPixels data w h = fold (scanPixel data) [0..<w * h] ([], [])"

text \<open>Line 86: the sampled index into the lit pixels.\<close>

definition sampleIdx :: "(nat \<Rightarrow> real) \<Rightarrow> nat list \<Rightarrow> nat \<Rightarrow> int" where
  "sampleIdx rnd validPixels i = \<lfloor>rnd i * real (length validPixels)\<rfloor>"

text \<open>Lines 90-103: the cells of particle \<open>i\<close>, from a pixel index and its colour.\<close>

definition placeParticle ::
  "nat \<Rightarrow> nat \<Rightarrow> nat \<Rightarrow> pixelColor \<Rightarrow> nat \<Rightarrow> particleField \<Rightarrow> particleField" where
  "placeParticle w h pixelIndex colorData i f =
     (let x = pixelIndex mod w;
          y = pixelIndex div w;
          scale = 20 / real w;
          px = (real x - real w / 2) * scale;
          py = - (real y - real h / 2) * scale;
          pz = 0
      in \<lparr> positions = (positions f) [i * 3 := px, i * 3 + 1 := py, i * 3 + 2 := pz],
           colors = (colors f)
             [i * 3 := red colorData, i * 3 + 1 := green colorData,
              i * 3 + 2 := blue colorData] \<rparr>)"

text \<open>
  One round of the particle loop (lines 85-104). When the sampled index is outside
  \<open>pixelColors\<close>, \<open>colorData\<close> is \<^verbatim>\<open>undefined\<close> and reading \<^verbatim>\<open>colorData.r\<close>
  raises a TypeError.
\<close>

definition textParticle ::
  "(nat \<Rightarrow> real) \<Rightarrow> nat \<Rightarrow> nat \<Rightarrow> nat list \<Rightarrow> pixelColor list \<Rightarrow> nat \<Rightarrow> particleField
     \<Rightarrow> error + particleField" where
  "textParticle rnd w h validPixels pixelColors i f =
     (let s = sampleIdx rnd validPixels i in
      if 0 \<le> s \<and> s < int (length pixelColors) then
        Inr (placeParticle w h (validPixels ! nat s) (pixelColors ! nat s) i f)
      else Inl TypeError)"

text \<open>A loop over particle indices whose body may raise: the first error ends it.\<close>

fun forEachParticle :: "(nat \<Rightarrow> 'a \<Rightarrow> error + 'a) \<Rightarrow> nat list \<Rightarrow> 'a \<Rightarrow> error + 'a" where
  "forEachParticle body [] f = Inr f"
| "forEachParticle body (i # rest) f =
     (case body i f of Inl e \<Rightarrow> Inl e | Inr f' \<Rightarrow> forEachParticle body rest f')"

text \<open>\<open>ctx = None\<close> is \<open>getContext('2d')\<close> returning null.\<close>

definition generateTextParticles ::
  "canvas2D option \<Rightarrow> (nat \<Rightarrow> real) \<Rightarrow> string \<Rightarrow> nat \<Rightarrow> error + particleField" where
  "generateTextParticles ctx rnd text particleCount =
     (case ctx of
        None \<Rightarrow> Inr (zeroField particleCount)
      | Some c \<Rightarrow>
          (let textWidth = nat \<lceil>measureText c ArialFont text\<rceil>;
               textHeight = nat \<lceil>fontSize * 1.5\<rceil>;
               w = textWidth + 60;
               h = textHeight;
               data = getImageData c w h (drawCommands text (real w) (real h))
           in case litPixels data w h of (validPixels, pixelColors) \<Rightarrow>
                if length validPixels = 0 then Inr (generateCloudParticles rnd particleCount)
                else forEachParticle (textParticle rnd w h validPixels pixelColors)
                       [0..<particleCount] (zeroField particleCount)))"

subsection \<open>Single precision: the cells of a Float32Array\<close>

text \<open>
  A store into a \<^verbatim>\<open>Float32Array\<close> rounds the number to the nearest single-precision
  number, ties to the even significand. \<open>ulpExponent x\<close> is the exponent of the last
  of the 24 significand bits at \<open>x\<close>, and at least \<open>-149\<close> (subnormal numbers).
  Numbers too large for the format, which would be stored as Infinity, and NaN are
  not modelled.
\<close>

definition roundEven :: "real \<Rightarrow> int" where
  "roundEven y =
     (let f = \<lfloor>y\<rfloor>; d = y - of_int f
      in if d < 1 / 2 then f else if 1 / 2 < d then f + 1 else if even f then f else f + 1)"

definition ulpExponent :: "real \<Rightarrow> int" where
  "ulpExponent x = max \<lfloor>log 2 \<bar>x\<bar>\<rfloor> (- 126) - 23"

definition fround :: "real \<Rightarrow> real" where
  "fround x =
     (if x = 0 then 0
      else sgn x * of_int (roundEven (\<bar>x\<bar> * 2 powr - of_int (ulpExponent x)))
             * 2 powr of_int (ulpExponent x))"

definition storeF32 :: "real list \<Rightarrow> nat \<Rightarrow> real \<Rightarrow> real list" where
  "storeF32 cells k v = cells [k := fround v]"

subsection \<open>Experience: targets and the morph step (Particles, lines 108-175)\<close>

definition PARTICLE_COUNT :: nat where
  "PARTICLE_COUNT = 3000"

definition MORPH_SPEED :: real where
  "MORPH_SPEED = 0.1"

text \<open>
  The five target fields of \<open>useMemo\<close>. Each generator call makes its own canvas and
  draws its own random numbers, so both are given per gesture.
\<close>

definition targets ::
  "(GestureType \<Rightarrow> canvas2D option) \<Rightarrow> (GestureType \<Rightarrow> nat \<Rightarrow> real) \<Rightarrow> GestureType
     \<Rightarrow> error + particleField" where
  "targets ctx rnd g =
     (case g of
        RESET \<Rightarrow> Inr (generateCloudParticles (rnd RESET) PARTICLE_COUNT)
      | ONE \<Rightarrow> generateTextParticles (ctx ONE) (rnd ONE) ''1'' PARTICLE_COUNT
      | TWO \<Rightarrow> generateTextParticles (ctx TWO) (rnd TWO) ''2'' PARTICLE_COUNT
      | THREE \<Rightarrow> generateTextParticles (ctx THREE) (rnd THREE) ''3'' PARTICLE_COUNT
      | LOVE \<Rightarrow> generateTextParticles (ctx LOVE) (rnd LOVE) loveText PARTICLE_COUNT)"

text \<open>
  The state of the \<open>Particles\<close> component: the target fields of \<open>useMemo\<close> and the
  live field. The live arrays are \<open>slice()\<close> copies of the \<open>RESET\<close> target (lines
  128-129). The arrays of the geometry's position and colour attributes are not copies:
  \<open>initialPositions\<close> and \<open>initialColors\<close> are \<open>targets[RESET].positions\<close> and
  \<open>targets[RESET].colors\<close> themselves (lines 123-126) and are handed to the attributes
  as their arrays (lines 180-181). So \<open>posAttr.setXYZ\<close> and \<open>colAttr.setXYZ\<close> write
  into the \<open>RESET\<close> target.
\<close>

record morphState =
  targetFields :: "GestureType \<Rightarrow> particleField"
  currentPositions :: "real list"
  currentColors :: "real list"

text \<open>Lines 145-154: the target of particle \<open>i\<close>, with the idle motion of the cloud.\<close>

definition effectiveTarget ::
  "particleField \<Rightarrow> GestureType \<Rightarrow> real \<Rightarrow> nat \<Rightarrow> real \<times> real \<times> real" where
  "effectiveTarget targetData g t i =
     (let ix = i * 3;
          tx = positions targetData ! ix;
          ty = positions targetData ! (ix + 1);
          tz = positions targetData ! (ix + 2)
      in if g = RESET then
           (tx + sin (t * 0.5 + real i) * 0.5, ty + cos (t * 0.3 + real i * 0.5) * 0.5, tz)
         else (tx, ty, tz))"

text \<open>Lines 156-158: three stores into the live positions.\<close>

definition morphPositions ::
  "particleField \<Rightarrow> GestureType \<Rightarrow> real \<Rightarrow> real \<Rightarrow> nat \<Rightarrow> real list \<Rightarrow> real list" where
  "morphPositions targetData g t speed i cp =
     (case effectiveTarget targetData g t i of (tx, ty, tz) \<Rightarrow>
        (let ix = i * 3;
             cp1 = storeF32 cp ix (cp ! ix + (tx - cp ! ix) * speed);
             cp2 = storeF32 cp1 (ix + 1) (cp1 ! (ix + 1) + (ty - cp1 ! (ix + 1)) * speed)
         in storeF32 cp2 (ix + 2) (cp2 ! (ix + 2) + (tz - cp2 ! (ix + 2)) * speed)))"

text \<open>Lines 162-168: three stores into the live colours.\<close>

definition morphColors :: "particleField \<Rightarrow> real \<Rightarrow> nat \<Rightarrow> real list \<Rightarrow> real list" where
  "morphColors targetData speed i cc =
     (let ix = i * 3;
          tCr = colors targetData ! ix;
          tCg = colors targetData ! (ix + 1);
          tCb = colors targetData ! (ix + 2);
          cc1 = storeF32 cc ix (cc ! ix + (tCr - cc ! ix) * speed);
          cc2 = storeF32 cc1 (ix + 1) (cc1 ! (ix + 1) + (tCg - cc1 ! (ix + 1)) * speed)
      in storeF32 cc2 (ix + 2) (cc2 ! (ix + 2) + (tCb - cc2 ! (ix + 2)) * speed))"

text \<open>\<open>setXYZ\<close> on an attribute array, and on the two attributes of the geometry.\<close>

definition setXYZ :: "real list \<Rightarrow> nat \<Rightarrow> real \<Rightarrow> real \<Rightarrow> real \<Rightarrow> real list" where
  "setXYZ attr i vx vy vz =
     storeF32 (storeF32 (storeF32 attr (i * 3) vx) (i * 3 + 1) vy) (i * 3 + 2) vz"

definition posAttrSetXYZ :: "morphState \<Rightarrow> nat \<Rightarrow> real \<Rightarrow> real \<Rightarrow> real \<Rightarrow> morphState" where
  "posAttrSetXYZ st i vx vy vz =
     st \<lparr> targetFields := (targetFields st)
       (RESET := (targetFields st RESET)
          \<lparr> positions := setXYZ (positions (targetFields st RESET)) i vx vy vz \<rparr>) \<rparr>"

definition colAttrSetXYZ :: "morphState \<Rightarrow> nat \<Rightarrow> real \<Rightarrow> real \<Rightarrow> real \<Rightarrow> morphState" where
  "colAttrSetXYZ st i vx vy vz =
     st \<lparr> targetFields := (targetFields st)
       (RESET := (targetFields st RESET)
          \<lparr> colors := setXYZ (colors (targetFields st RESET)) i vx vy vz \<rparr>) \<rparr>"

text \<open>
  The body of the particle loop (lines 142-171), in the order of the source: the target
  positions are read and the live positions stored, \<open>posAttr.setXYZ\<close>, the target
  colours are read and the live colours stored, \<open>colAttr.setXYZ\<close>. \<open>targetData\<close> is
  the object \<open>targets[gesture]\<close>, read in its state of the moment.
\<close>

definition morphParticle :: "GestureType \<Rightarrow> real \<Rightarrow> real \<Rightarrow> nat \<Rightarrow> morphState \<Rightarrow> morphState" where
  "morphParticle g t speed i st =
     (let ix = i * 3;
          cp = morphPositions (targetFields st g) g t speed i (currentPositions st);
          st1 = posAttrSetXYZ (st \<lparr> currentPositions := cp \<rparr>) i
                  (cp ! ix) (cp ! (ix + 1)) (cp ! (ix + 2));
          cc = morphColors (targetFields st1 g) speed i (currentColors st1)
      in colAttrSetXYZ (st1 \<lparr> currentColors := cc \<rparr>) i
           (cc ! ix) (cc ! (ix + 1)) (cc ! (ix + 2)))"

text \<open>The frame callback over \<open>n\<close> particles; \<open>useFrame\<close> runs it with \<open>PARTICLE_COUNT\<close>.\<close>

definition morphFrame :: "nat \<Rightarrow> HandState \<Rightarrow> real \<Rightarrow> morphState \<Rightarrow> morphState" where
  "morphFrame n handState elapsedTime st =
     (let speed = (if gesture handState = LOVE then 0.2 else MORPH_SPEED)
      in fold (morphParticle (gesture handState) elapsedTime speed) [0..<n] st)"

text \<open>Nothing happens while the geometry is not mounted (line 132).\<close>

definition useFrame :: "bool \<Rightarrow> HandState \<Rightarrow> real \<Rightarrow> morphState \<Rightarrow> morphState" where
  "useFrame geometryMounted handState elapsedTime st =
     (if \<not> geometryMounted then st else morphFrame PARTICLE_COUNT handState elapsedTime st)"

text \<open>The component when it is first rendered, for the fields that \<open>useMemo\<close> computed.\<close>

definition initialMorphState :: "(GestureType \<Rightarrow> particleField) \<Rightarrow> morphState" where
  "initialMorphState fields0 =
     \<lparr> targetFields = fields0,
       currentPositions = positions (fields0 RESET),
       currentColors = colors (fields0 RESET) \<rparr>"

text \<open>A run of frames: for each, whether the geometry is mounted, the hand state, the time.\<close>

fun runFrames :: "(bool \<times> HandState \<times> real) list \<Rightarrow> morphState \<Rightarrow> morphState" where
  "runFrames [] st = st"
| "runFrames ((mounted, handState, t) # rest) st =
     runFrames rest (useFrame mounted handState t st)"

subsection \<open>Notions of the specification and of the proofs\<close>

text \<open>A pixel is lit when a channel exceeds 30 of 255; its normalised colour.\<close>

definition isLit :: "nat list \<Rightarrow> nat \<Rightarrow> bool" where
  "isLit data p \<longleftrightarrow> data ! (p * 4) > 30 \<or> data ! (p * 4 + 1) > 30 \<or> data ! (p * 4 + 2) > 30"

definition normalizedColor :: "nat list \<Rightarrow> nat \<Rightarrow> pixelColor" where
  "normalizedColor data p =
     \<lparr> red = real (data ! (p * 4)) / 255, green = real (data ! (p * 4 + 1)) / 255,
       blue = real (data ! (p * 4 + 2)) / 255 \<rparr>"

text \<open>The canvas size and the image data of a text, as \<open>generateTextParticles\<close> computes them.\<close>

definition canvasWidth :: "canvas2D \<Rightarrow> string \<Rightarrow> nat" where
  "canvasWidth c text = nat \<lceil>measureText c ArialFont text\<rceil> + 60"

definition canvasHeight :: nat where
  "canvasHeight = 180"

definition imageData :: "canvas2D \<Rightarrow> string \<Rightarrow> nat list" where
  "imageData c text =
     getImageData c (canvasWidth c text) canvasHeight
       (drawCommands text (real (canvasWidth c text)) (real canvasHeight))"

text \<open>The lit pixels of a text's canvas, in scan order.\<close>

definition litIndices :: "canvas2D \<Rightarrow> string \<Rightarrow> nat list" where
  "litIndices c text =
     filter (isLit (imageData c text)) [0..<canvasWidth c text * canvasHeight]"

text \<open>The colour of particle \<open>i\<close> of a field is exactly white or exactly red.\<close>

definition exactWhiteOrRed :: "particleField \<Rightarrow> nat \<Rightarrow> bool" where
  "exactWhiteOrRed f i \<longleftrightarrow>
     (colors f ! (3 * i), colors f ! (3 * i + 1), colors f ! (3 * i + 2))
       \<in> {(1, 1, 1), (1, 0, 0)}"

text \<open>\<open>Math.random\<close> returns a number in \<open>[0, 1)\<close>.\<close>

definition unitRandom :: "(nat \<Rightarrow> real) \<Rightarrow> bool" where
  "unitRandom rnd \<longleftrightarrow> (\<forall>k. 0 \<le> rnd k \<and> rnd k < 1)"

text \<open>A number that a \<^verbatim>\<open>Float32Array\<close> cell can hold.\<close>

definition float32 :: "real \<Rightarrow> bool" where
  "float32 v \<longleftrightarrow> fround v = v \<and> \<bar>v\<bar> < 2 ^ 128"

text \<open>The morph rate of a gesture, and the effective target of a flat cell index.\<close>

definition morphRate :: "GestureType \<Rightarrow> real" where
  "morphRate g = (if g = LOVE then 0.2 else 0.1)"

definition targetAt :: "particleField \<Rightarrow> GestureType \<Rightarrow> real \<Rightarrow> nat \<Rightarrow> real" where
  "targetAt targetData g t j =
     (case effectiveTarget targetData g t (j div 3) of (tx, ty, tz) \<Rightarrow>
        if j mod 3 = 0 then tx else if j mod 3 = 1 then ty else tz)"

text \<open>
  What holds of every reachable state of the debouncer, and the states in which a
  sustained gesture \<open>g\<close> has been emitted.
\<close>

definition debouncerInv :: "debouncer \<Rightarrow> bool" where
  "debouncerInv s \<longleftrightarrow>
     length (gestureBuffer s) \<le> BUFFER_SIZE \<and>
     (\<forall>h. 2 \<le> count_list (gestureBuffer s) h \<longrightarrow> lastEmittedGesture s = h)"

definition settled :: "GestureType \<Rightarrow> debouncer \<Rightarrow> bool" where
  "settled g s \<longleftrightarrow>
     length (gestureBuffer s) \<le> BUFFER_SIZE \<and> lastEmittedGesture s = g \<and>
     gestureBuffer s \<noteq> [] \<and> last (gestureBuffer s) = g"

subsection \<open>Concrete inputs\<close>

text \<open>
  Two hands of 21 landmarks: the wrist at the origin, every joint at distance 1 above
  it, and the tips named stretched out.
\<close>

definition oneFrame :: "landmark list" where
  "oneFrame =
     (replicate 21 \<lparr> coord_x = 0, coord_y = 1, coord_z = 0 \<rparr>)
       [0 := \<lparr> coord_x = 0, coord_y = 0, coord_z = 0 \<rparr>,
        8 := \<lparr> coord_x = 0, coord_y = 2, coord_z = 0 \<rparr>]"

definition threeFrame :: "landmark list" where
  "threeFrame =
     (replicate 21 \<lparr> coord_x = 0, coord_y = 1, coord_z = 0 \<rparr>)
       [0 := \<lparr> coord_x = 0, coord_y = 0, coord_z = 0 \<rparr>,
        4 := \<lparr> coord_x = 1, coord_y = 1, coord_z = 0 \<rparr>,
        8 := \<lparr> coord_x = 0, coord_y = 2, coord_z = 0 \<rparr>,
        12 := \<lparr> coord_x = 0, coord_y = 2, coord_z = 0 \<rparr>]"

text \<open>The debouncer after one frame showing \<open>ONE\<close>.\<close>

definition afterOne :: debouncer where
  "afterOne = \<lparr> gestureBuffer = [ONE], lastEmittedGesture = RESET \<rparr>"

text \<open>One target field for all gestures, a live field of two particles at the origin, two hand states.\<close>

definition demoFields :: "GestureType \<Rightarrow> particleField" where
  "demoFields g = \<lparr> positions = [1, 2, 3, 4, 2, 6], colors = [1, 0, 0, 1, 1, 1] \<rparr>"

definition demoState :: morphState where
  "demoState = \<lparr> targetFields = demoFields,
     currentPositions = [0, 0, 0, 0, 0, 0], currentColors = [0, 0, 0, 0, 0, 0] \<rparr>"

definition loveHand :: HandState where
  "loveHand = \<lparr> gesture = LOVE, isTracking = True \<rparr>"

definition idleHand :: HandState where
  "idleHand = \<lparr> gesture = RESET, isTracking = False \<rparr>"

text \<open>
  A hand state showing \<open>ONE\<close>. A live field of two particles whose cells all hold 1, with
  a target whose cell 4 is the next single above 1. A cloud of two particles at the origin,
  and the component as first rendered over it.
\<close>

definition stuckFields :: "GestureType \<Rightarrow> particleField" where
  "stuckFields g = \<lparr> positions = [1, 1, 1, 1, 1 + 1 / 2 ^ 23, 1], colors = [1, 1, 1, 1, 1, 1] \<rparr>"

definition stuckState :: morphState where
  "stuckState = \<lparr> targetFields = stuckFields,
     currentPositions = [1, 1, 1, 1, 1, 1], currentColors = [1, 1, 1, 1, 1, 1] \<rparr>"

definition oneHand :: HandState where
  "oneHand = \<lparr> gesture = ONE, isTracking = True \<rparr>"

definition originCloud :: "GestureType \<Rightarrow> particleField" where
  "originCloud g = \<lparr> positions = [0, 0, 0, 0, 0, 0], colors = [1, 1, 1, 1, 1, 1] \<rparr>"

definition idleState :: morphState where
  "idleState = initialMorphState originCloud"

text \<open>
  A random source that always returns one half. Two canvases of 60 by 180 pixels, for any
  text and any drawing commands: an all-black one, and a black one whose pixel 0 is
  white and whose pixel 1 is the half-bright grey of an anti-aliased glyph edge. The
  field of the one particle that samples the grey pixel.
\<close>

definition halfRandom :: "nat \<Rightarrow> real" where
  "halfRandom k = 1 / 2"

definition darkCanvas :: canvas2D where
  "darkCanvas =
     \<lparr> measureText = (\<lambda>f s. 0), getImageData = (\<lambda>w h cmds. replicate (4 * w * h) 0) \<rparr>"

definition edgeCanvas :: canvas2D where
  "edgeCanvas =
     \<lparr> measureText = (\<lambda>f s. 0),
       getImageData = (\<lambda>w h cmds.
         [255, 255, 255, 255, 128, 128, 128, 255] @ replicate (4 * w * h - 8) 0) \<rparr>"

definition edgeField :: particleField where
  "edgeField = \<lparr> positions = [- 29 / 3, 30, 0], colors = [128 / 255, 128 / 255, 128 / 255] \<rparr>"

section \<open>Theorems\<close>

subsection \<open>The classifier\<close>

lemma classifyFingers_rules: "classifyFingers f = firstMatch gestureRules RESET f"
  by (simp add: classifyFingers_def gestureRules_def)

lemma GestureType_exhaust: "g \<in> {RESET, ONE, TWO, THREE, LOVE}"
  by (cases g) simp_all

text \<open>
  C1. The classifier is the ordered rule list of the specification: no hand gives
  \<open>RESET\<close>; otherwise the first rule that holds decides, in the order \<open>LOVE\<close>
  (index, middle, ring, pinky open), \<open>THREE\<close> (index, middle, ring open, pinky closed),
  \<open>THREE\<close> (thumb, index, middle open, ring and pinky closed), \<open>TWO\<close> (index, middle
  open, ring and pinky closed), \<open>TWO\<close> (thumb, index open, the other three closed),
  \<open>ONE\<close> (index open, the other three closed), and \<open>RESET\<close> when none holds. It is
  total: every combination of the five bits gets one of the five labels. A frame with a
  hand of 21 landmarks is classified by these rules on its finger states.
\<close>

theorem classifier_ordered_rules:
  "classifyFrame hand = classifySpec hand \<and>
   classifyFrame hand \<in> {RESET, ONE, TWO, THREE, LOVE} \<and>
   detectGesture [] = Inr RESET \<and>
   (21 \<le> length lm \<longrightarrow>
      detectGesture (lm # others) = Inr (classifySpec (Some (fingerStatesOf lm))))"
proof -
  have "classifyFrame hand = classifySpec hand"
    by (simp add: classifyFrame_def classifySpec_def classifyFingers_rules split: option.split)
  moreover have "classifyFrame hand \<in> {RESET, ONE, TWO, THREE, LOVE}"
    by (rule GestureType_exhaust)
  moreover have "detectGesture [] = Inr RESET"
    by (simp add: detectGesture_def)
  moreover have "21 \<le> length lm \<longrightarrow>
      detectGesture (lm # others) = Inr (classifySpec (Some (fingerStatesOf lm)))"
    by (simp add: detectGesture_def classifySpec_def classifyFingers_rules)
  ultimately show ?thesis by blast
qed

text \<open>
  C1 at concrete inputs: thumb, index and middle open gives \<open>THREE\<close> (the earlier rule
  wins over \<open>TWO\<close>), and a hand with only the index stretched gives \<open>ONE\<close>.
\<close>

theorem classifier_ordered_rules_witness:
  "classifyFrame (Some \<lparr> thumbOpen = True, indexOpen = True, middleOpen = True,
       ringOpen = False, pinkyOpen = False \<rparr>) = THREE \<and>
   classifySpec (Some \<lparr> thumbOpen = True, indexOpen = True, middleOpen = True,
       ringOpen = False, pinkyOpen = False \<rparr>) = THREE \<and>
   21 \<le> length oneFrame \<and>
   detectGesture [oneFrame] = Inr ONE \<and>
   classifySpec (Some (fingerStatesOf oneFrame)) = ONE"
proof -
  have len: "21 \<le> length oneFrame" by (simp add: oneFrame_def)
  have spec: "classifySpec (Some \<lparr> thumbOpen = True, indexOpen = True, middleOpen = True,
       ringOpen = False, pinkyOpen = False \<rparr>) = THREE"
    by (simp add: classifySpec_def gestureRules_def)
  have fs: "fingerStatesOf oneFrame = \<lparr> thumbOpen = False, indexOpen = True, middleOpen = False,
       ringOpen = False, pinkyOpen = False \<rparr>"
    by (simp add: fingerStatesOf_def oneFrame_def isFingerOpen_def thumbTipToIdxMcp_def
        palmScaleSq_def distSq_def)
  have one: "classifySpec (Some (fingerStatesOf oneFrame)) = ONE"
    by (simp add: fs classifySpec_def gestureRules_def)
  from classifier_ordered_rules [of "Some \<lparr> thumbOpen = True, indexOpen = True,
       middleOpen = True, ringOpen = False, pinkyOpen = False \<rparr>" oneFrame "[]"] len spec one
  show ?thesis by simp
qed

text \<open>
  C3. For a hand of 21 landmarks, index, middle, ring and pinky (tip/pip 8/6, 12/10,
  16/14, 20/18) are open exactly when the squared distance from the wrist to the tip
  exceeds 1.1 times the squared distance from the wrist to the pip; the thumb is open
  exactly when the squared distance from the thumb tip (4) to the index MCP (5) exceeds
  0.6 times the squared palm scale, the squared distance from the wrist (0) to the index
  MCP (5). The frame is classified on these five states.
\<close>

theorem finger_open_thresholds:
  assumes "length lm = 21"
  shows
    "(indexOpen (fingerStatesOf lm) \<longleftrightarrow>
        squaredDistance (wrist lm) (lm ! 8) > 1.1 * squaredDistance (wrist lm) (lm ! 6)) \<and>
     (middleOpen (fingerStatesOf lm) \<longleftrightarrow>
        squaredDistance (wrist lm) (lm ! 12) > 1.1 * squaredDistance (wrist lm) (lm ! 10)) \<and>
     (ringOpen (fingerStatesOf lm) \<longleftrightarrow>
        squaredDistance (wrist lm) (lm ! 16) > 1.1 * squaredDistance (wrist lm) (lm ! 14)) \<and>
     (pinkyOpen (fingerStatesOf lm) \<longleftrightarrow>
        squaredDistance (wrist lm) (lm ! 20) > 1.1 * squaredDistance (wrist lm) (lm ! 18)) \<and>
     (thumbOpen (fingerStatesOf lm) \<longleftrightarrow>
        squaredDistance (thumbTip lm) (indexMCP lm)
          > 0.6 * squaredDistance (wrist lm) (indexMCP lm)) \<and>
     detectGesture (lm # others) = Inr (classifyFingers (fingerStatesOf lm))"
  using assms
  by (simp add: fingerStatesOf_def isFingerOpen_def thumbTipToIdxMcp_def palmScaleSq_def
      distSq_def squaredDistance_def wrist_def thumbTip_def indexMCP_def detectGesture_def
      mult.commute)

text \<open>C3 at a hand with thumb, index and middle stretched.\<close>

theorem finger_open_thresholds_witness:
  "length threeFrame = 21 \<and>
   fingerStatesOf threeFrame = \<lparr> thumbOpen = True, indexOpen = True, middleOpen = True,
       ringOpen = False, pinkyOpen = False \<rparr> \<and>
   squaredDistance (wrist threeFrame) (threeFrame ! 8)
      > 1.1 * squaredDistance (wrist threeFrame) (threeFrame ! 6) \<and>
   \<not> squaredDistance (wrist threeFrame) (threeFrame ! 20)
      > 1.1 * squaredDistance (wrist threeFrame) (threeFrame ! 18) \<and>
   squaredDistance (thumbTip threeFrame) (indexMCP threeFrame)
      > 0.6 * squaredDistance (wrist threeFrame) (indexMCP threeFrame) \<and>
   detectGesture [threeFrame] = Inr THREE"
proof -
  have len: "length threeFrame = 21" by (simp add: threeFrame_def)
  have fs: "fingerStatesOf threeFrame = \<lparr> thumbOpen = True, indexOpen = True,
       middleOpen = True, ringOpen = False, pinkyOpen = False \<rparr>"
    by (simp add: fingerStatesOf_def threeFrame_def isFingerOpen_def thumbTipToIdxMcp_def
        palmScaleSq_def distSq_def)
  have cl: "classifyFingers \<lparr> thumbOpen = True, indexOpen = True,
       middleOpen = True, ringOpen = False, pinkyOpen = False \<rparr> = THREE"
    by (simp add: classifyFingers_def)
  from finger_open_thresholds [OF len, of "[]"] len fs cl show ?thesis by simp
qed

subsection \<open>The debouncer\<close>

lemma short_list_cases:
  assumes "length (xs::'a list) \<le> 3"
  obtains "xs = []" | a where "xs = [a]" | a b where "xs = [a, b]" | a b c where "xs = [a, b, c]"
proof (cases xs)
  case Nil then show ?thesis using that by simp
next
  case (Cons a ys)
  note c1 = this
  show ?thesis
  proof (cases ys)
    case Nil then show ?thesis using that c1 by simp
  next
    case (Cons b zs)
    note c2 = this
    show ?thesis
    proof (cases zs)
      case Nil then show ?thesis using that c1 c2 by simp
    next
      case (Cons c ws)
      then have "ws = []" using assms c1 c2 by simp
      then show ?thesis using that c1 c2 Cons by simp
    qed
  qed
qed

lemma length_pushGesture:
  "length buf \<le> BUFFER_SIZE \<Longrightarrow> length (pushGesture buf g) \<le> BUFFER_SIZE"
  by (simp add: pushGesture_def Let_def)

lemma pushGesture_lastN:
  assumes "length buf \<le> BUFFER_SIZE"
  shows "pushGesture buf g = lastN BUFFER_SIZE (buf @ [g])"
proof -
  from assms have "length buf \<le> 3" by (simp add: BUFFER_SIZE_def)
  then show ?thesis
    by (cases buf rule: short_list_cases) (simp_all add: pushGesture_def lastN_def BUFFER_SIZE_def)
qed

lemma pushGesture_nonempty: "pushGesture buf g \<noteq> []"
  by (cases buf) (simp_all add: pushGesture_def Let_def BUFFER_SIZE_def)

lemma modeScan_snoc: "modeScan (xs @ [x]) l = countGesture x (modeScan xs l)"
  by (simp add: modeScan_def)

lemma modeScan_tally:
  "case modeScan buf l of (counts, m, sg) \<Rightarrow>
     (\<forall>g. counts g = (if g \<in> set buf then Some (count_list buf g) else None)) \<and>
     (\<forall>g. count_list buf g \<le> m) \<and>
     (buf = [] \<longrightarrow> m = 0 \<and> sg = l) \<and>
     (buf \<noteq> [] \<longrightarrow> sg \<in> set buf \<and> count_list buf sg = m)"
proof (induction buf rule: rev_induct)
  case Nil
  then show ?case by (simp add: modeScan_def)
next
  case (snoc x xs)
  obtain counts m sg where ms: "modeScan xs l = (counts, m, sg)"
    by (cases "modeScan xs l") auto
  with snoc show ?case
    apply (auto simp: modeScan_snoc countGesture_def Let_def split: if_splits)
     apply (simp add: le_SucI)
    apply (meson le_SucI le_trans less_Suc_eq_le)
    done
qed

lemma modeScan_short:
  assumes "length buf \<le> 3" "buf \<noteq> []"
  shows "fst (snd (modeScan buf l)) = modalCount buf"
    and "Some (snd (snd (modeScan buf l))) = modalLabel buf"
  using assms
  by (cases buf rule: short_list_cases; 
      auto simp: modeScan_def countGesture_def modalCount_def modalLabel_def Let_def)+

lemma step_cases:
  obtains (emit) counts m sg where
      "modeScan (pushGesture (gestureBuffer s) g) (lastEmittedGesture s) = (counts, m, sg)"
      "2 \<le> m" "sg \<noteq> lastEmittedGesture s"
      "smoothGestureStep s g hands =
         (\<lparr> gestureBuffer = pushGesture (gestureBuffer s) g, lastEmittedGesture = sg \<rparr>,
          Some \<lparr> gesture = sg, isTracking = hands > 0 \<rparr>)"
  | (hold) counts m sg where
      "modeScan (pushGesture (gestureBuffer s) g) (lastEmittedGesture s) = (counts, m, sg)"
      "m < 2 \<or> sg = lastEmittedGesture s"
      "smoothGestureStep s g hands = (s\<lparr> gestureBuffer := pushGesture (gestureBuffer s) g \<rparr>, None)"
proof -
  obtain counts m sg where ms:
    "modeScan (pushGesture (gestureBuffer s) g) (lastEmittedGesture s) = (counts, m, sg)"
    by (cases "modeScan (pushGesture (gestureBuffer s) g) (lastEmittedGesture s)") auto
  have thr: "(real m > real BUFFER_SIZE / 2) = (2 \<le> m)"
    by (auto simp: BUFFER_SIZE_def)
  show ?thesis
  proof (cases "2 \<le> m \<and> sg \<noteq> lastEmittedGesture s")
    case True
    then show ?thesis using ms thr emit [of counts m sg]
      by (simp add: smoothGestureStep_def Let_def)
  next
    case False
    then show ?thesis using ms thr hold [of counts m sg]
      by (auto simp: smoothGestureStep_def Let_def)
  qed
qed

lemma step_buffer: "gestureBuffer (fst (smoothGestureStep s g hands)) = pushGesture (gestureBuffer s) g"
  by (cases s g hands rule: step_cases) simp_all

lemma count_list_two_labels:
  "a \<noteq> b \<Longrightarrow> count_list xs a + count_list xs b \<le> length xs"
  by (induction xs) auto

lemma majority_unique:
  assumes "length xs \<le> 3" "2 \<le> count_list xs a" "2 \<le> count_list xs b"
  shows "a = b"
proof (rule ccontr)
  assume "a \<noteq> b"
  then have "count_list xs a + count_list xs b \<le> length xs"
    by (rule count_list_two_labels)
  with assms show False by simp
qed

lemma count_list_tl: "count_list (tl xs) h \<le> count_list xs h"
  by (cases xs) simp_all

lemma count_list_pushGesture:
  "h \<noteq> g \<Longrightarrow> count_list (pushGesture buf g) h \<le> count_list buf h"
proof -
  assume "h \<noteq> g"
  then have "count_list (buf @ [g]) h = count_list buf h" by simp
  moreover have "count_list (pushGesture buf g) h \<le> count_list (buf @ [g]) h"
    by (simp add: pushGesture_def Let_def count_list_tl del: count_list_append)
  ultimately show ?thesis by simp
qed

lemma step_inv:
  assumes "length (gestureBuffer s) \<le> BUFFER_SIZE"
  shows "debouncerInv (fst (smoothGestureStep s g hands))"
proof -
  let ?buf = "pushGesture (gestureBuffer s) g"
  have len: "length ?buf \<le> 3"
    using length_pushGesture [OF assms] by (simp add: BUFFER_SIZE_def)
  have ne: "?buf \<noteq> []" by (rule pushGesture_nonempty)
  show ?thesis
  proof (cases s g hands rule: step_cases)
    case (emit counts m sg)
    from modeScan_tally [of ?buf "lastEmittedGesture s"] emit(1) ne
    have "count_list ?buf sg = m" by simp
    with emit(2) have "2 \<le> count_list ?buf sg" by simp
    with len have "\<And>h. 2 \<le> count_list ?buf h \<Longrightarrow> sg = h"
      by (blast intro: majority_unique)
    with len emit(4) show ?thesis
      by (simp add: debouncerInv_def BUFFER_SIZE_def)
  next
    case (hold counts m sg)
    from modeScan_tally [of ?buf "lastEmittedGesture s"] hold(1) ne
    have cnt: "count_list ?buf sg = m" and mx: "\<And>h. count_list ?buf h \<le> m" by simp_all
    have "lastEmittedGesture s = h" if h: "2 \<le> count_list ?buf h" for h
    proof -
      from h mx [of h] have "2 \<le> m" by simp
      with hold(2) have eq: "sg = lastEmittedGesture s" by simp
      from \<open>2 \<le> m\<close> cnt have "2 \<le> count_list ?buf sg" by simp
      with len h have "sg = h" by (blast intro: majority_unique)
      with eq show ?thesis by simp
    qed
    with len hold(3) show ?thesis
      by (simp add: debouncerInv_def BUFFER_SIZE_def)
  qed
qed

lemma reachable_inv: "reachable s \<Longrightarrow> debouncerInv s"
proof (induction rule: reachable.induct)
  case reachable_init
  show ?case by (simp add: debouncerInv_def initialDebouncer_def)
next
  case (reachable_step s g hands)
  then have "length (gestureBuffer s) \<le> BUFFER_SIZE" by (simp add: debouncerInv_def)
  then show ?case by (rule step_inv)
qed

lemma emit_is_raw:
  assumes inv: "debouncerInv s"
    and out: "snd (smoothGestureStep s g hands) = Some e"
  shows "gesture e = g" and "lastEmittedGesture (fst (smoothGestureStep s g hands)) = g"
proof -
  let ?buf = "pushGesture (gestureBuffer s) g"
  have ne: "?buf \<noteq> []" by (rule pushGesture_nonempty)
  have both: "gesture e = g \<and> lastEmittedGesture (fst (smoothGestureStep s g hands)) = g"
  proof (cases s g hands rule: step_cases)
    case (emit counts m sg)
    from modeScan_tally [of ?buf "lastEmittedGesture s"] emit(1) ne
    have "count_list ?buf sg = m" by simp
    with emit(2) have two: "2 \<le> count_list ?buf sg" by simp
    have "sg = g"
    proof (rule ccontr)
      assume "sg \<noteq> g"
      then have "count_list ?buf sg \<le> count_list (gestureBuffer s) sg"
        by (rule count_list_pushGesture)
      with two have "2 \<le> count_list (gestureBuffer s) sg" by simp
      with inv have "lastEmittedGesture s = sg" by (simp add: debouncerInv_def)
      with emit(3) show False by simp
    qed
    with emit(4) out show ?thesis by auto
  next
    case (hold counts m sg)
    with out show ?thesis by simp
  qed
  from both show "gesture e = g" and "lastEmittedGesture (fst (smoothGestureStep s g hands)) = g"
    by simp_all
qed

lemma pushGesture_last: "last (pushGesture buf g) = g"
  by (cases buf) (simp_all add: pushGesture_def Let_def last_tl BUFFER_SIZE_def)

lemma pushGesture_twice:
  assumes "length buf \<le> BUFFER_SIZE" "buf \<noteq> []" "last buf = g"
  shows "2 \<le> count_list (pushGesture buf g) g"
proof -
  from assms(1) have "length buf \<le> 3" by (simp add: BUFFER_SIZE_def)
  then show ?thesis using assms(2,3)
    by (cases buf rule: short_list_cases) (simp_all add: pushGesture_def BUFFER_SIZE_def)
qed

lemma settled_step:
  assumes "settled g s"
  shows "snd (smoothGestureStep s g hands) = None"
    and "settled g (fst (smoothGestureStep s g hands))"
proof -
  let ?buf = "pushGesture (gestureBuffer s) g"
  from assms have len0: "length (gestureBuffer s) \<le> BUFFER_SIZE" and le: "lastEmittedGesture s = g"
    and two: "2 \<le> count_list ?buf g"
    by (simp_all add: settled_def pushGesture_twice)
  have len: "length ?buf \<le> 3"
    using length_pushGesture [OF len0] by (simp add: BUFFER_SIZE_def)
  have ne: "?buf \<noteq> []" by (rule pushGesture_nonempty)
  have "snd (smoothGestureStep s g hands) = None \<and> settled g (fst (smoothGestureStep s g hands))"
  proof (cases s g hands rule: step_cases)
    case (emit counts m sg)
    from modeScan_tally [of ?buf "lastEmittedGesture s"] emit(1) ne
    have "count_list ?buf sg = m" by simp
    with emit(2) have "2 \<le> count_list ?buf sg" by simp
    with len two have "sg = g" by (blast intro: majority_unique)
    with emit(3) le show ?thesis by simp
  next
    case (hold counts m sg)
    with len le ne show ?thesis
      by (simp add: settled_def pushGesture_last BUFFER_SIZE_def)
  qed
  then show "snd (smoothGestureStep s g hands) = None"
    and "settled g (fst (smoothGestureStep s g hands))" by simp_all
qed

lemma settled_sustain: "settled g s \<Longrightarrow> o' \<in> set (sustain s g hs) \<Longrightarrow> o' = None"
proof (induction hs arbitrary: s)
  case Nil
  then show ?case by simp
next
  case (Cons h hs)
  from Cons.prems(2) have "o' = snd (smoothGestureStep s g h) \<or>
      o' \<in> set (sustain (fst (smoothGestureStep s g h)) g hs)" by simp
  then show ?case
  proof
    assume "o' = snd (smoothGestureStep s g h)"
    with settled_step(1) [OF Cons.prems(1)] show ?thesis by simp
  next
    assume "o' \<in> set (sustain (fst (smoothGestureStep s g h)) g hs)"
    with Cons.IH [OF settled_step(2) [OF Cons.prems(1)]] show ?thesis by simp
  qed
qed

lemma emit_settled:
  assumes inv: "debouncerInv s"
    and out: "snd (smoothGestureStep s g hands) = Some e"
  shows "settled g (fst (smoothGestureStep s g hands))"
proof -
  from inv have "length (gestureBuffer s) \<le> BUFFER_SIZE" by (simp add: debouncerInv_def)
  then have "length (pushGesture (gestureBuffer s) g) \<le> BUFFER_SIZE"
    by (rule length_pushGesture)
  with emit_is_raw(2) [OF inv out] show ?thesis
    by (simp add: settled_def step_buffer pushGesture_last pushGesture_nonempty)
qed

text \<open>
  C2. One update of the debouncer, from a reachable state. The buffer becomes the last
  three labels of the old buffer followed by the raw label. Its modal label is the first
  label in scan order with the largest count. A state \<open>{modal label, isTracking = hands > 0}\<close>
  is emitted exactly when the modal count exceeds half the capacity (that is, is at
  least 2) and the modal label differs from the last emitted one; the last emitted label
  changes exactly then. An emitted label occupies at least 2 slots of the buffer. After
  an emission, any number of further updates with the same raw gesture emit nothing.
\<close>

theorem debouncer_update:
  assumes "reachable s"
  shows
    "(let s' = fst (smoothGestureStep s g hands);
          emitted = snd (smoothGestureStep s g hands);
          buf = gestureBuffer s'
      in buf = lastN BUFFER_SIZE (gestureBuffer s @ [g]) \<and>
         (real (modalCount buf) > real BUFFER_SIZE / 2 \<longleftrightarrow> 2 \<le> modalCount buf) \<and>
         (\<exists>m. modalLabel buf = Some m \<and>
            emitted =
              (if real (modalCount buf) > real BUFFER_SIZE / 2 \<and> m \<noteq> lastEmittedGesture s
               then Some \<lparr> gesture = m, isTracking = hands > 0 \<rparr> else None) \<and>
            lastEmittedGesture s' = (if emitted = None then lastEmittedGesture s else m)) \<and>
         (\<forall>e. emitted = Some e \<longrightarrow> 2 \<le> count_list buf (gesture e)) \<and>
         (emitted \<noteq> None \<longrightarrow> (\<forall>hs. \<forall>later \<in> set (sustain s' g hs). later = None)))"
proof -
  let ?buf = "pushGesture (gestureBuffer s) g"
  from assms have inv: "debouncerInv s" by (rule reachable_inv)
  then have len0: "length (gestureBuffer s) \<le> BUFFER_SIZE" by (simp add: debouncerInv_def)
  have len: "length ?buf \<le> 3"
    using length_pushGesture [OF len0] by (simp add: BUFFER_SIZE_def)
  have ne: "?buf \<noteq> []" by (rule pushGesture_nonempty)
  have buf: "gestureBuffer (fst (smoothGestureStep s g hands)) = ?buf" by (rule step_buffer)
  have p1: "?buf = lastN BUFFER_SIZE (gestureBuffer s @ [g])"
    using len0 by (rule pushGesture_lastN)
  have p2: "(real (modalCount ?buf) > real BUFFER_SIZE / 2) = (2 \<le> modalCount ?buf)"
    by (auto simp: BUFFER_SIZE_def)
  obtain counts m sg where ms: "modeScan ?buf (lastEmittedGesture s) = (counts, m, sg)"
    by (cases "modeScan ?buf (lastEmittedGesture s)") auto
  from modeScan_short [OF len ne, of "lastEmittedGesture s"] ms
  have mc: "modalCount ?buf = m" and ml: "modalLabel ?buf = Some sg" by simp_all
  have p3: "snd (smoothGestureStep s g hands) =
      (if real (modalCount ?buf) > real BUFFER_SIZE / 2 \<and> sg \<noteq> lastEmittedGesture s
       then Some \<lparr> gesture = sg, isTracking = hands > 0 \<rparr> else None)"
    using ms mc by (simp add: smoothGestureStep_def Let_def)
  have p4: "lastEmittedGesture (fst (smoothGestureStep s g hands)) =
      (if snd (smoothGestureStep s g hands) = None then lastEmittedGesture s else sg)"
    using ms mc by (simp add: smoothGestureStep_def Let_def)
  from modeScan_tally [of ?buf "lastEmittedGesture s"] ms ne
  have cnt: "count_list ?buf sg = m" by simp
  have p5: "2 \<le> count_list ?buf (gesture e)" if "snd (smoothGestureStep s g hands) = Some e" for e
    using that p3 p2 mc cnt by (simp split: if_splits) auto
  have p6: "later = None"
    if "snd (smoothGestureStep s g hands) \<noteq> None"
      and "later \<in> set (sustain (fst (smoothGestureStep s g hands)) g hs)" for hs later
  proof -
    from that(1) obtain e where "snd (smoothGestureStep s g hands) = Some e" by auto
    with inv have "settled g (fst (smoothGestureStep s g hands))" by (rule emit_settled)
    then show ?thesis using that(2) by (rule settled_sustain)
  qed
  from p1 p2 ml p3 p4 p5 p6 show ?thesis
    unfolding Let_def buf by blast
qed

lemma afterOne_step: "fst (smoothGestureStep initialDebouncer ONE 2) = afterOne"
  by (simp add: smoothGestureStep_def initialDebouncer_def afterOne_def pushGesture_def
      modeScan_def countGesture_def BUFFER_SIZE_def)

text \<open>C2 at the second of two frames showing \<open>ONE\<close>, followed by three more.\<close>

theorem debouncer_update_witness:
  "reachable afterOne \<and>
   smoothGestureStep afterOne ONE 2 =
     (\<lparr> gestureBuffer = [ONE, ONE], lastEmittedGesture = ONE \<rparr>,
      Some \<lparr> gesture = ONE, isTracking = True \<rparr>) \<and>
   [ONE, ONE] = lastN BUFFER_SIZE (gestureBuffer afterOne @ [ONE]) \<and>
   modalLabel [ONE, ONE] = Some ONE \<and> modalCount [ONE, ONE] = 2 \<and>
   set (sustain \<lparr> gestureBuffer = [ONE, ONE], lastEmittedGesture = ONE \<rparr> ONE [2, 2, 0])
     \<subseteq> {None}"
proof -
  have "reachable (fst (smoothGestureStep initialDebouncer ONE 2))"
    by (rule reachable_step [OF reachable_init])
  then have r: "reachable afterOne" by (simp only: afterOne_step)
  have st: "smoothGestureStep afterOne ONE 2 =
     (\<lparr> gestureBuffer = [ONE, ONE], lastEmittedGesture = ONE \<rparr>,
      Some \<lparr> gesture = ONE, isTracking = True \<rparr>)"
    by (simp add: smoothGestureStep_def afterOne_def pushGesture_def
      modeScan_def countGesture_def BUFFER_SIZE_def)
  have mo: "modalLabel [ONE, ONE] = Some ONE \<and> modalCount [ONE, ONE] = 2"
    by (simp add: modalLabel_def modalCount_def)
  from debouncer_update [OF r, of ONE 2]
  have ev: "[ONE, ONE] = lastN BUFFER_SIZE (gestureBuffer afterOne @ [ONE])"
    and once: "\<forall>hs. \<forall>later \<in> set (sustain
        \<lparr> gestureBuffer = [ONE, ONE], lastEmittedGesture = ONE \<rparr> ONE hs). later = None"
    by (simp_all add: Let_def st)
  from once have "set (sustain \<lparr> gestureBuffer = [ONE, ONE], lastEmittedGesture = ONE \<rparr>
      ONE [2, 2, 0]) \<subseteq> {None}"
    by blast
  with r st ev mo show ?thesis by blast
qed

subsection \<open>Single precision\<close>

lemma roundEven_of_int: "roundEven (of_int n) = n"
  by (simp add: roundEven_def)

lemma roundEven_bounds: "\<lfloor>y\<rfloor> \<le> roundEven y" "roundEven y \<le> \<lfloor>y\<rfloor> + 1"
  by (simp_all add: roundEven_def Let_def)

lemma roundEven_mono:
  assumes "y \<le> z"
  shows "roundEven y \<le> roundEven z"
proof (cases "\<lfloor>y\<rfloor> = \<lfloor>z\<rfloor>")
  case True
  with assms have "y - of_int \<lfloor>z\<rfloor> \<le> z - of_int \<lfloor>z\<rfloor>" by simp
  with True show ?thesis by (auto simp: roundEven_def Let_def)
next
  case False
  with assms have "\<lfloor>y\<rfloor> < \<lfloor>z\<rfloor>" using floor_mono [OF assms] by simp
  then have "\<lfloor>y\<rfloor> + 1 \<le> \<lfloor>z\<rfloor>" by simp
  with roundEven_bounds(2) [of y] roundEven_bounds(1) [of z] show ?thesis by linarith
qed

lemma roundEven_ge: "of_int n \<le> y \<Longrightarrow> n \<le> roundEven y"
  using roundEven_mono [of "of_int n" y] by (simp add: roundEven_of_int)

lemma roundEven_le: "y \<le> of_int n \<Longrightarrow> roundEven y \<le> n"
  using roundEven_mono [of y "of_int n"] by (simp add: roundEven_of_int)


lemma exponent_bounds:
  assumes "0 < x"
  shows "2 powr of_int \<lfloor>log 2 x\<rfloor> \<le> x" and "x < 2 powr (of_int \<lfloor>log 2 x\<rfloor> + 1)"
  using floor_log_eq_powr_iff [of x 2 "\<lfloor>log 2 x\<rfloor>"] assms by simp_all

lemma fround_pos:
  "0 < x \<Longrightarrow>
   fround x = of_int (roundEven (x * 2 powr - of_int (ulpExponent x))) * 2 powr of_int (ulpExponent x)"
  by (simp add: fround_def)

lemma fround_zero: "fround 0 = 0"
  by (simp add: fround_def)

lemma ulpExponent_minus: "ulpExponent (- x) = ulpExponent x"
  by (simp add: ulpExponent_def)

lemma fround_minus: "fround (- x) = - fround x"
  by (simp add: fround_def ulpExponent_minus sgn_minus)

lemma scaled_less:
  assumes "0 < x"
  shows "x * 2 powr - of_int (ulpExponent x) < 2 ^ 24"
proof -
  let ?E = "\<lfloor>log 2 x\<rfloor>"
  let ?c = "max ?E (- 126)"
  have "x < 2 powr (of_int ?E + 1)" using assms by (rule exponent_bounds)
  also have "\<dots> \<le> 2 powr (of_int ?c + 1)" by (intro powr_mono) simp_all
  finally have "x * 2 powr - of_int (ulpExponent x)
      < 2 powr (of_int ?c + 1) * 2 powr - of_int (ulpExponent x)"
    by (simp add: mult_strict_right_mono)
  also have "\<dots> = 2 powr 24"
    using assms by (simp add: powr_add [symmetric] ulpExponent_def)
  finally show ?thesis by simp
qed

lemma scaled_ge:
  assumes "0 < x" "- 126 \<le> \<lfloor>log 2 x\<rfloor>"
  shows "2 ^ 23 \<le> x * 2 powr - of_int (ulpExponent x)"
proof -
  let ?E = "\<lfloor>log 2 x\<rfloor>"
  from assms(2) have u: "ulpExponent x = ?E - 23" using assms(1) by (simp add: ulpExponent_def)
  have "2 powr of_int ?E * 2 powr - of_int (ulpExponent x)
      \<le> x * 2 powr - of_int (ulpExponent x)"
    using exponent_bounds(1) [OF assms(1)] by (simp add: mult_right_mono)
  moreover have "2 powr of_int ?E * 2 powr - of_int (ulpExponent x) = (2::real) powr 23"
    by (simp add: powr_add [symmetric] u)
  ultimately show ?thesis by simp
qed


lemma pow2_shift: "(2::real) ^ n * 2 powr a = 2 powr (a + real n)"
  by (simp add: powr_add powr_realpow)

lemma fround_nonneg: "0 \<le> x \<Longrightarrow> 0 \<le> fround x"
proof (cases "x = 0")
  case True
  then show ?thesis by (simp add: fround_zero)
next
  case False
  assume "0 \<le> x"
  with False have x: "0 < x" by simp
  have "0 \<le> x * 2 powr - of_int (ulpExponent x)" using x by simp
  then have "0 \<le> roundEven (x * 2 powr - of_int (ulpExponent x))"
    using roundEven_ge [of 0] by simp
  then show ?thesis by (simp add: fround_pos [OF x])
qed

lemma fround_le_top:
  assumes "0 < x"
  shows "fround x \<le> 2 powr (of_int (max \<lfloor>log 2 x\<rfloor> (- 126)) + 1)"
proof -
  let ?e = "ulpExponent x"
  have "x * 2 powr - of_int ?e \<le> of_int (2 ^ 24)"
    using scaled_less [OF assms] by simp
  then have "roundEven (x * 2 powr - of_int ?e) \<le> 2 ^ 24" by (rule roundEven_le)
  then have "of_int (roundEven (x * 2 powr - of_int ?e)) \<le> (2 ^ 24 :: real)"
    by (metis of_int_le_iff of_int_numeral of_int_power)
  then have "fround x \<le> 2 ^ 24 * 2 powr of_int ?e"
    by (simp add: fround_pos [OF assms] mult_right_mono)
  also have "\<dots> = 2 powr (of_int ?e + real 24)" by (rule pow2_shift)
  also have "of_int ?e + real 24 = of_int (max \<lfloor>log 2 x\<rfloor> (- 126)) + 1"
    using assms by (simp add: ulpExponent_def)
  finally show ?thesis .
qed

lemma fround_ge_bot:
  assumes "0 < x" "- 126 \<le> \<lfloor>log 2 x\<rfloor>"
  shows "2 powr of_int \<lfloor>log 2 x\<rfloor> \<le> fround x"
proof -
  let ?e = "ulpExponent x"
  from assms have u: "?e = \<lfloor>log 2 x\<rfloor> - 23" by (simp add: ulpExponent_def)
  have "of_int (2 ^ 23) \<le> x * 2 powr - of_int ?e"
    using scaled_ge [OF assms] by simp
  then have "2 ^ 23 \<le> roundEven (x * 2 powr - of_int ?e)" by (rule roundEven_ge)
  then have "(2 ^ 23 :: real) \<le> of_int (roundEven (x * 2 powr - of_int ?e))"
    by (metis of_int_le_iff of_int_numeral of_int_power)
  then have "2 ^ 23 * 2 powr of_int ?e \<le> fround x"
    by (simp add: fround_pos [OF assms(1)] mult_right_mono)
  moreover have "2 ^ 23 * 2 powr of_int ?e = 2 powr (of_int ?e + real 23)" by (rule pow2_shift)
  moreover have "of_int ?e + real 23 = of_int \<lfloor>log 2 x\<rfloor>" by (simp add: u)
  ultimately show ?thesis by simp
qed

lemma fround_mono_pos:
  assumes "0 < x" "x \<le> y"
  shows "fround x \<le> fround y"
proof -
  from assms have y: "0 < y" by simp
  let ?Ex = "\<lfloor>log 2 x\<rfloor>" and ?Ey = "\<lfloor>log 2 y\<rfloor>"
  let ?cx = "max ?Ex (- 126)" and ?cy = "max ?Ey (- 126)"
  have "log 2 x \<le> log 2 y" using assms by simp
  then have E: "?Ex \<le> ?Ey" by (rule floor_mono)
  then have c: "?cx \<le> ?cy" by simp
  show ?thesis
  proof (cases "?cx = ?cy")
    case True
    with assms y have u: "ulpExponent x = ulpExponent y" by (simp add: ulpExponent_def)
    have "x * 2 powr - of_int (ulpExponent y) \<le> y * 2 powr - of_int (ulpExponent y)"
      using assms(2) by (simp add: mult_right_mono)
    then have "roundEven (x * 2 powr - of_int (ulpExponent y))
        \<le> roundEven (y * 2 powr - of_int (ulpExponent y))"
      by (rule roundEven_mono)
    then show ?thesis
      by (simp add: fround_pos [OF assms(1)] fround_pos [OF y] u mult_right_mono)
  next
    case False
    with c have lt: "?cx + 1 \<le> ?cy" by simp
    then have n: "- 126 \<le> ?Ey" and cy: "?cy = ?Ey" by linarith+
    have "fround x \<le> 2 powr (of_int ?cx + 1)" using assms(1) by (rule fround_le_top)
    also have "\<dots> \<le> 2 powr of_int ?cy"
    proof (rule powr_mono)
      from lt have "of_int (?cx + 1) \<le> (of_int ?cy :: real)" by (simp only: of_int_le_iff)
      then show "of_int ?cx + 1 \<le> (of_int ?cy :: real)" by simp
    qed simp
    also have "\<dots> \<le> fround y" unfolding cy using y n by (rule fround_ge_bot)
    finally show ?thesis .
  qed
qed

lemma fround_nonpos: "x \<le> 0 \<Longrightarrow> fround x \<le> 0"
  using fround_nonneg [of "- x"] by (simp add: fround_minus)

lemma fround_mono:
  assumes "x \<le> y"
  shows "fround x \<le> fround y"
proof -
  consider (pos) "0 < x" | (mid) "x \<le> 0" "0 \<le> y" | (neg) "y < 0" using assms by linarith
  then show ?thesis
  proof cases
    case pos
    then show ?thesis using assms by (rule fround_mono_pos)
  next
    case mid
    then show ?thesis using fround_nonpos [of x] fround_nonneg [of y] by simp
  next
    case neg
    then have "0 < - y" "- y \<le> - x" using assms by simp_all
    then have "fround (- y) \<le> fround (- x)" by (rule fround_mono_pos)
    then show ?thesis by (simp add: fround_minus)
  qed
qed


lemma floor_log_less:
  assumes "0 < v" "v < 2 powr of_int n"
  shows "\<lfloor>log 2 v\<rfloor> < n"
proof -
  from assms have "log 2 v < of_int n" by (simp add: log_less_iff)
  then show ?thesis by (simp only: floor_less_iff)
qed

lemma floor_log_ge:
  assumes "0 < v" "2 powr of_int n \<le> v"
  shows "n \<le> \<lfloor>log 2 v\<rfloor>"
proof -
  from assms have "of_int n \<le> log 2 v" by (simp add: le_log_iff)
  then show ?thesis by (simp only: le_floor_iff)
qed

lemma ulpExponent_normal:
  assumes "0 < x" "2 powr of_int E \<le> x" "x < 2 powr (of_int E + 1)" "- 126 \<le> E"
  shows "ulpExponent x = E - 23"
proof -
  have "\<lfloor>log 2 x\<rfloor> = E"
    using floor_log_eq_powr_iff [of x 2 E] assms by simp
  with assms show ?thesis by (simp add: ulpExponent_def)
qed

lemma ulpExponent_subnormal:
  assumes "0 < x" "x < 2 powr - 126"
  shows "ulpExponent x = - 149"
proof -
  have "\<lfloor>log 2 x\<rfloor> < - 126"
    using floor_log_less [of x "- 126"] assms by simp
  with assms show ?thesis by (simp add: ulpExponent_def)
qed

lemma fround_fixed:
  assumes "0 < v" "v = of_int k * 2 powr of_int (ulpExponent v)"
  shows "fround v = v"
proof -
  have "v * 2 powr - of_int (ulpExponent v)
      = of_int k * (2 powr of_int (ulpExponent v) * 2 powr - of_int (ulpExponent v))"
    by (subst assms(2)) simp
  also have "\<dots> = of_int k" by (simp add: powr_add [symmetric])
  finally have "roundEven (v * 2 powr - of_int (ulpExponent v)) = k"
    by (simp add: roundEven_of_int)
  with assms show ?thesis by (simp add: fround_pos)
qed

lemma fround_eval:
  assumes "0 < x" "2 powr of_int E \<le> x" "x < 2 powr (of_int E + 1)" "- 126 \<le> E"
  shows "fround x = of_int (roundEven (x * 2 powr (23 - of_int E))) * 2 powr (of_int E - 23)"
  using ulpExponent_normal [OF assms] by (simp add: fround_pos [OF assms(1)])


lemma fround_idem_pos:
  assumes x: "0 < x"
  shows "fround (fround x) = fround x"
proof -
  let ?E = "\<lfloor>log 2 x\<rfloor>"
  let ?c = "max ?E (- 126)"
  let ?e = "ulpExponent x"
  let ?m = "roundEven (x * 2 powr - of_int ?e)"
  let ?v = "fround x"
  have e: "?e = ?c - 23" using x by (simp add: ulpExponent_def)
  have v: "?v = of_int ?m * 2 powr of_int ?e" using x by (rule fround_pos)
  have c: "- 126 \<le> ?c" by simp
  have m0: "0 \<le> ?m"
    using roundEven_ge [of 0 "x * 2 powr - of_int ?e"] x by simp
  have "x * 2 powr - of_int ?e \<le> of_int (2 ^ 24)" using scaled_less [OF x] by simp
  then have m24: "?m \<le> 2 ^ 24" by (rule roundEven_le)
  have "(2::real) ^ 24 * 2 powr of_int ?e = 2 powr (of_int ?e + real 24)"
    by (rule pow2_shift)
  also have "of_int ?e + real 24 = of_int ?c + 1" by (simp add: e)
  finally have hi: "(2::real) ^ 24 * 2 powr of_int ?e = 2 powr (of_int ?c + 1)" .
  have "(2::real) ^ 23 * 2 powr of_int ?e = 2 powr (of_int ?e + real 23)"
    by (rule pow2_shift)
  also have "of_int ?e + real 23 = of_int ?c" by (simp add: e)
  finally have lo: "(2::real) ^ 23 * 2 powr of_int ?e = 2 powr of_int ?c" .
  consider (zero) "?m = 0" | (mid) "0 < ?m" "?m < 2 ^ 24" | (full) "?m = 2 ^ 24"
    using m0 m24 by linarith
  then show ?thesis
  proof cases
    case zero
    then show ?thesis by (simp add: v fround_zero)
  next
    case mid
    from mid(1) have vpos: "0 < ?v" by (simp add: v)
    from mid(2) have "of_int ?m < (2 ^ 24 :: real)"
      by (metis of_int_less_iff of_int_numeral of_int_power)
    then have "?v < 2 ^ 24 * 2 powr of_int ?e" by (simp add: v)
    then have lt: "?v < 2 powr of_int (?c + 1)" using hi by simp
    have Ev: "\<lfloor>log 2 ?v\<rfloor> \<le> ?c" using floor_log_less [OF vpos lt] by simp
    have "max \<lfloor>log 2 ?v\<rfloor> (- 126) = ?c"
    proof (cases "?c = - 126")
      case True
      with Ev show ?thesis by simp
    next
      case False
      then have n: "- 126 \<le> ?E" and cE: "?c = ?E" by linarith+
      have "of_int (2 ^ 23) \<le> x * 2 powr - of_int ?e" using scaled_ge [OF x n] by simp
      then have "2 ^ 23 \<le> ?m" by (rule roundEven_ge)
      then have "(2 ^ 23 :: real) \<le> of_int ?m"
        by (metis of_int_le_iff of_int_numeral of_int_power)
      then have "2 ^ 23 * 2 powr of_int ?e \<le> ?v" by (simp add: v mult_right_mono)
      then have "2 powr of_int ?c \<le> ?v" using lo by simp
      then have "?c \<le> \<lfloor>log 2 ?v\<rfloor>" using vpos by (intro floor_log_ge)
      with Ev show ?thesis by simp
    qed
    then have "ulpExponent ?v = ?c - 23"
      unfolding ulpExponent_def [of "fround x"] using vpos by simp
    then have "ulpExponent ?v = ?e" by (simp only: e)
    with v have "?v = of_int ?m * 2 powr of_int (ulpExponent ?v)" by simp
    with vpos show ?thesis by (rule fround_fixed)
  next
    case full
    have vv: "?v = 2 powr of_int (?c + 1)"
      using full hi by (simp add: v)
    then have vpos: "0 < ?v" by simp
    have "ulpExponent ?v = (?c + 1) - 23"
    proof (rule ulpExponent_normal [OF vpos])
      show "2 powr of_int (?c + 1) \<le> ?v" by (simp add: vv)
      show "?v < 2 powr (of_int (?c + 1) + 1)" unfolding vv by (intro powr_less_mono) simp_all
      show "- 126 \<le> ?c + 1" by simp
    qed
    then have u: "ulpExponent ?v = ?e + 1" by (simp add: e)
    have "of_int (2 ^ 23) * 2 powr of_int (?e + 1) = 2 powr (of_int (?e + 1) + real 23)"
      using pow2_shift [of 23 "of_int (?e + 1)"] by simp
    also have "of_int (?e + 1) + real 23 = (of_int (?c + 1) :: real)" by (simp add: e)
    also have "2 powr of_int (?c + 1) = ?v" by (simp only: vv)
    finally have "?v = of_int (2 ^ 23) * 2 powr of_int (ulpExponent ?v)" by (simp add: u)
    with vpos show ?thesis by (rule fround_fixed)
  qed
qed

lemma fround_idem: "fround (fround x) = fround x"
proof -
  consider (pos) "0 < x" | (zero) "x = 0" | (neg) "x < 0" by linarith
  then show ?thesis
  proof cases
    case pos
    then show ?thesis by (rule fround_idem_pos)
  next
    case zero
    then show ?thesis by (simp add: fround_zero)
  next
    case neg
    then have "fround (fround (- x)) = fround (- x)" by (intro fround_idem_pos) simp
    then show ?thesis by (simp add: fround_minus)
  qed
qed

subsection \<open>The morph step\<close>

lemma slot_cases:
  fixes i j :: nat
  obtains "j = i * 3" "j div 3 = i" "j mod 3 = 0"
  | "j = i * 3 + 1" "j div 3 = i" "j mod 3 = 1"
  | "j = i * 3 + 2" "j div 3 = i" "j mod 3 = 2"
  | "j \<noteq> i * 3" "j \<noteq> i * 3 + 1" "j \<noteq> i * 3 + 2" "j div 3 \<noteq> i"
proof -
  consider (a) "j = i * 3" | (b) "j = i * 3 + 1" | (c) "j = i * 3 + 2"
    | (d) "j \<noteq> i * 3" "j \<noteq> i * 3 + 1" "j \<noteq> i * 3 + 2"
    by blast
  then show thesis
  proof cases
    case a
    then have "j div 3 = i" "j mod 3 = 0" by presburger+
    with a show thesis by (rule that(1))
  next
    case b
    then have "j div 3 = i" "j mod 3 = 1" by presburger+
    with b show thesis by (rule that(2))
  next
    case c
    then have "j div 3 = i" "j mod 3 = 2" by presburger+
    with c show thesis by (rule that(3))
  next
    case d
    then have "j div 3 \<noteq> i" by presburger
    with d show thesis by (rule that(4))
  qed
qed

lemma fold_slots_length:
  assumes "\<And>i xs. length (F i xs) = length (xs :: 'a list)"
  shows "length (fold F is xs) = length xs"
  using assms by (induction "is" arbitrary: xs) simp_all

lemma fold_slots_nth:
  fixes F :: "nat \<Rightarrow> 'a list \<Rightarrow> 'a list"
  assumes len: "\<And>i xs. length (F i xs) = length xs"
    and nth: "\<And>i xs j. j < length xs \<Longrightarrow>
        F i xs ! j = (if j div 3 = i then upd j (xs ! j) else xs ! j)"
    and j: "j < length xs"
  shows "fold F [0..<k] xs ! j = (if j div 3 < k then upd j (xs ! j) else xs ! j)"
proof (induction k)
  case 0
  show ?case by simp
next
  case (Suc k)
  have l: "j < length (fold F [0..<k] xs)"
    using j by (simp add: fold_slots_length [of F, OF len])
  have "fold F [0..<Suc k] xs ! j = F k (fold F [0..<k] xs) ! j" by simp
  also have "\<dots> = (if j div 3 = k then upd j (fold F [0..<k] xs ! j) else fold F [0..<k] xs ! j)"
    using l by (rule nth)
  also have "\<dots> = (if j div 3 < Suc k then upd j (xs ! j) else xs ! j)"
    using Suc.IH by (auto simp: less_Suc_eq)
  finally show ?case .
qed

lemma length_storeF32: "length (storeF32 xs k v) = length xs"
  by (simp add: storeF32_def)

lemma nth_storeF32: "storeF32 xs k v ! j = (if j = k \<and> j < length xs then fround v else xs ! j)"
  by (cases "j = k") (auto simp: storeF32_def list_update_beyond)

lemma length_morphPositions: "length (morphPositions td g t sp i cp) = length cp"
  by (simp add: morphPositions_def Let_def length_storeF32 split: prod.split)

lemma length_morphColors: "length (morphColors td sp i cc) = length cc"
  by (simp add: morphColors_def Let_def length_storeF32)

lemma length_setXYZ: "length (setXYZ attr i vx vy vz) = length attr"
  by (simp add: setXYZ_def length_storeF32)

lemma nth_setXYZ_other: "j div 3 \<noteq> i \<Longrightarrow> setXYZ attr i vx vy vz ! j = attr ! j"
  by (cases i j rule: slot_cases) (simp_all add: setXYZ_def nth_storeF32 length_storeF32)

lemma nth_setXYZ:
  assumes "j < length attr"
  shows "setXYZ attr i vx vy vz ! j =
     (if j = i * 3 then fround vx else if j = i * 3 + 1 then fround vy
      else if j = i * 3 + 2 then fround vz else attr ! j)"
  using assms by (simp add: setXYZ_def nth_storeF32 length_storeF32)

lemma nth_morphPositions:
  assumes "j < length cp"
  shows "morphPositions td g t sp i cp ! j =
     (if j div 3 = i then fround (cp ! j + (targetAt td g t j - cp ! j) * sp) else cp ! j)"
proof -
  obtain tx ty tz where e: "effectiveTarget td g t i = (tx, ty, tz)"
    by (cases "effectiveTarget td g t i") auto
  show ?thesis
    using assms
    by (cases i j rule: slot_cases)
       (simp_all add: morphPositions_def targetAt_def e Let_def nth_storeF32 length_storeF32)
qed

lemma nth_morphColors:
  assumes "j < length cc"
  shows "morphColors td sp i cc ! j =
     (if j div 3 = i then fround (cc ! j + (colors td ! j - cc ! j) * sp) else cc ! j)"
  using assms
  by (cases i j rule: slot_cases)
     (simp_all add: morphColors_def Let_def nth_storeF32 length_storeF32)

text \<open>What one round of the loop does to each part of the state.\<close>

lemma morphParticle_positions:
  "currentPositions (morphParticle g t sp i st) =
     morphPositions (targetFields st g) g t sp i (currentPositions st)"
  by (simp add: morphParticle_def Let_def posAttrSetXYZ_def colAttrSetXYZ_def)

lemma morphParticle_colors:
  "currentColors (morphParticle g t sp i st) =
     morphColors (targetFields st g) sp i (currentColors st)"
  by (simp add: morphParticle_def Let_def posAttrSetXYZ_def colAttrSetXYZ_def morphColors_def)

lemma morphParticle_fields_other:
  "g' \<noteq> RESET \<Longrightarrow> targetFields (morphParticle g t sp i st) g' = targetFields st g'"
  by (simp add: morphParticle_def Let_def posAttrSetXYZ_def colAttrSetXYZ_def)

lemma morphParticle_reset_positions:
  "positions (targetFields (morphParticle g t sp i st) RESET) =
     (let cp = currentPositions (morphParticle g t sp i st)
      in setXYZ (positions (targetFields st RESET)) i
           (cp ! (i * 3)) (cp ! (i * 3 + 1)) (cp ! (i * 3 + 2)))"
  by (simp add: morphParticle_def Let_def posAttrSetXYZ_def colAttrSetXYZ_def)

lemma morphParticle_reset_colors:
  "colors (targetFields (morphParticle g t sp i st) RESET) =
     (let cc = currentColors (morphParticle g t sp i st)
      in setXYZ (colors (targetFields st RESET)) i
           (cc ! (i * 3)) (cc ! (i * 3 + 1)) (cc ! (i * 3 + 2)))"
  by (simp add: morphParticle_def Let_def posAttrSetXYZ_def colAttrSetXYZ_def morphColors_def)

lemma effectiveTarget_cong:
  assumes "positions A ! (i * 3) = positions B ! (i * 3)"
    and "positions A ! (i * 3 + 1) = positions B ! (i * 3 + 1)"
    and "positions A ! (i * 3 + 2) = positions B ! (i * 3 + 2)"
  shows "effectiveTarget A g t i = effectiveTarget B g t i"
  using assms by (simp add: effectiveTarget_def Let_def)

lemma morphPositions_cong:
  assumes "\<And>j. j div 3 = i \<Longrightarrow> positions A ! j = positions B ! j"
  shows "morphPositions A g t sp i cp = morphPositions B g t sp i cp"
proof -
  have "(i * 3) div 3 = i" "(i * 3 + 1) div 3 = i" "(i * 3 + 2) div 3 = i" by simp_all
  then have "effectiveTarget A g t i = effectiveTarget B g t i"
    by (intro effectiveTarget_cong assms)
  then show ?thesis by (simp add: morphPositions_def)
qed

lemma morphColors_cong:
  assumes "\<And>j. j div 3 = i \<Longrightarrow> colors A ! j = colors B ! j"
  shows "morphColors A sp i cc = morphColors B sp i cc"
proof -
  have "(i * 3) div 3 = i" "(i * 3 + 1) div 3 = i" "(i * 3 + 2) div 3 = i" by simp_all
  then have "colors A ! (i * 3) = colors B ! (i * 3)"
    "colors A ! (i * 3 + 1) = colors B ! (i * 3 + 1)"
    "colors A ! (i * 3 + 2) = colors B ! (i * 3 + 2)"
    by (simp_all only: assms)
  then show ?thesis by (simp add: morphColors_def Let_def)
qed

lemma fold_fields_other:
  "g' \<noteq> RESET \<Longrightarrow>
   targetFields (fold (morphParticle g t sp) is st) g' = targetFields st g'"
  by (induction "is" arbitrary: st) (simp_all add: morphParticle_fields_other)

lemma fold_fields_lengths:
  "length (positions (targetFields (fold (morphParticle g t sp) is st) g'))
     = length (positions (targetFields st g')) \<and>
   length (colors (targetFields (fold (morphParticle g t sp) is st) g'))
     = length (colors (targetFields st g'))"
proof (induction "is" arbitrary: st)
  case Nil
  show ?case by simp
next
  case (Cons i rest)
  have "length (positions (targetFields (morphParticle g t sp i st) g'))
      = length (positions (targetFields st g')) \<and>
    length (colors (targetFields (morphParticle g t sp i st) g'))
      = length (colors (targetFields st g'))"
  proof (cases "g' = RESET")
    case True
    then show ?thesis
      by (simp add: morphParticle_reset_positions morphParticle_reset_colors Let_def
          length_setXYZ)
  next
    case False
    then show ?thesis by (simp add: morphParticle_fields_other)
  qed
  with Cons.IH [of "morphParticle g t sp i st"] show ?case by simp
qed

lemma fold_live_lengths:
  "length (currentPositions (fold (morphParticle g t sp) is st)) = length (currentPositions st) \<and>
   length (currentColors (fold (morphParticle g t sp) is st)) = length (currentColors st)"
  by (induction "is" arbitrary: st)
     (simp_all add: morphParticle_positions morphParticle_colors length_morphPositions
        length_morphColors)

lemma fold_untouched:
  assumes "k \<le> j div 3"
  shows "positions (targetFields (fold (morphParticle g t sp) [0..<k] st) g') ! j
      = positions (targetFields st g') ! j \<and>
    colors (targetFields (fold (morphParticle g t sp) [0..<k] st) g') ! j
      = colors (targetFields st g') ! j"
  using assms
proof (induction k)
  case 0
  show ?case by simp
next
  case (Suc k)
  let ?s = "fold (morphParticle g t sp) [0..<k] st"
  from Suc.prems have ne: "j div 3 \<noteq> k" and le: "k \<le> j div 3" by simp_all
  have "positions (targetFields (morphParticle g t sp k ?s) g') ! j
      = positions (targetFields ?s g') ! j \<and>
    colors (targetFields (morphParticle g t sp k ?s) g') ! j = colors (targetFields ?s g') ! j"
  proof (cases "g' = RESET")
    case True
    with ne show ?thesis
      by (simp add: morphParticle_reset_positions morphParticle_reset_colors Let_def
          nth_setXYZ_other)
  next
    case False
    then show ?thesis by (simp add: morphParticle_fields_other)
  qed
  with Suc.IH [OF le] show ?case by simp
qed

lemma fold_live:
  "currentPositions (fold (morphParticle g t sp) [0..<k] st)
     = fold (morphPositions (targetFields st g) g t sp) [0..<k] (currentPositions st) \<and>
   currentColors (fold (morphParticle g t sp) [0..<k] st)
     = fold (morphColors (targetFields st g) sp) [0..<k] (currentColors st)"
proof (induction k)
  case 0
  show ?case by simp
next
  case (Suc k)
  let ?s = "fold (morphParticle g t sp) [0..<k] st"
  have p: "morphPositions (targetFields ?s g) g t sp k cp
      = morphPositions (targetFields st g) g t sp k cp" for cp
    by (rule morphPositions_cong) (simp add: fold_untouched)
  have c: "morphColors (targetFields ?s g) sp k cc = morphColors (targetFields st g) sp k cc" for cc
    by (rule morphColors_cong) (simp add: fold_untouched)
  from Suc.IH show ?case
    by (simp add: morphParticle_positions morphParticle_colors p c)
qed

lemma morphFrame_fold:
  "morphFrame n hs t st =
     fold (morphParticle (gesture hs) t (morphRate (gesture hs))) [0..<n] st"
  by (simp add: morphFrame_def Let_def morphRate_def MORPH_SPEED_def)

lemma morphFrame_positions:
  assumes "j < length (currentPositions st)"
  shows "currentPositions (morphFrame n hs t st) ! j =
     (if j div 3 < n
      then fround (currentPositions st ! j +
        (targetAt (targetFields st (gesture hs)) (gesture hs) t j - currentPositions st ! j)
          * morphRate (gesture hs))
      else currentPositions st ! j)"
  unfolding morphFrame_fold
  by (simp only: fold_live)
     (rule fold_slots_nth [OF length_morphPositions nth_morphPositions assms])

lemma morphFrame_colors:
  assumes "j < length (currentColors st)"
  shows "currentColors (morphFrame n hs t st) ! j =
     (if j div 3 < n
      then fround (currentColors st ! j +
        (colors (targetFields st (gesture hs)) ! j - currentColors st ! j)
          * morphRate (gesture hs))
      else currentColors st ! j)"
  unfolding morphFrame_fold
  by (simp only: fold_live)
     (rule fold_slots_nth [OF length_morphColors nth_morphColors assms])

lemma morphFrame_lengths:
  "length (currentPositions (morphFrame n hs t st)) = length (currentPositions st)"
  "length (currentColors (morphFrame n hs t st)) = length (currentColors st)"
  "length (positions (targetFields (morphFrame n hs t st) g')) = length (positions (targetFields st g'))"
  "length (colors (targetFields (morphFrame n hs t st) g')) = length (colors (targetFields st g'))"
  by (simp_all add: morphFrame_fold fold_live_lengths fold_fields_lengths)

lemma morphFrame_fields_other:
  "g' \<noteq> RESET \<Longrightarrow> targetFields (morphFrame n hs t st) g' = targetFields st g'"
  by (simp add: morphFrame_fold fold_fields_other)

lemma nth_setXYZ_slot:
  assumes "j < length attr" "j div 3 = i"
  shows "setXYZ attr i (v ! (i * 3)) (v ! (i * 3 + 1)) (v ! (i * 3 + 2)) ! j = fround (v ! j)"
  using assms
  by (cases i j rule: slot_cases) (simp_all add: setXYZ_def nth_storeF32 length_storeF32)

lemma fold_overwritten:
  assumes "j div 3 < k"
    and "j < length (currentPositions st)" and "j < length (positions (targetFields st RESET))"
    and "j < length (currentColors st)" and "j < length (colors (targetFields st RESET))"
  shows "positions (targetFields (fold (morphParticle g t sp) [0..<k] st) RESET) ! j
      = currentPositions (fold (morphParticle g t sp) [0..<k] st) ! j \<and>
    colors (targetFields (fold (morphParticle g t sp) [0..<k] st) RESET) ! j
      = currentColors (fold (morphParticle g t sp) [0..<k] st) ! j"
  using assms(1)
proof (induction k)
  case 0
  then show ?case by simp
next
  case (Suc k)
  let ?s = "fold (morphParticle g t sp) [0..<k] st"
  let ?s' = "morphParticle g t sp k ?s"
  have lp: "j < length (currentPositions ?s)" and lc: "j < length (currentColors ?s)"
    using assms(2,4) by (simp_all add: fold_live_lengths)
  have lrp: "j < length (positions (targetFields ?s RESET))"
    and lrc: "j < length (colors (targetFields ?s RESET))"
    using assms(3,5) by (simp_all add: fold_fields_lengths)
  have cp: "currentPositions ?s' ! j =
      (if j div 3 = k
       then fround (currentPositions ?s ! j +
         (targetAt (targetFields ?s g) g t j - currentPositions ?s ! j) * sp)
       else currentPositions ?s ! j)"
    unfolding morphParticle_positions using lp by (rule nth_morphPositions)
  have cc: "currentColors ?s' ! j =
      (if j div 3 = k
       then fround (currentColors ?s ! j +
         (colors (targetFields ?s g) ! j - currentColors ?s ! j) * sp)
       else currentColors ?s ! j)"
    unfolding morphParticle_colors using lc by (rule nth_morphColors)
  have "positions (targetFields ?s' RESET) ! j = currentPositions ?s' ! j \<and>
    colors (targetFields ?s' RESET) ! j = currentColors ?s' ! j"
  proof (cases "j div 3 = k")
    case True
    have rp: "positions (targetFields ?s' RESET) ! j = fround (currentPositions ?s' ! j)"
      unfolding morphParticle_reset_positions Let_def
      using lrp True by (rule nth_setXYZ_slot)
    have rc: "colors (targetFields ?s' RESET) ! j = fround (currentColors ?s' ! j)"
      unfolding morphParticle_reset_colors Let_def
      using lrc True by (rule nth_setXYZ_slot)
    from True show ?thesis
      unfolding rp rc by (simp add: cp cc fround_idem)
  next
    case False
    with Suc.prems have "j div 3 < k" by simp
    from Suc.IH [OF this] False show ?thesis
      by (simp add: morphParticle_reset_positions morphParticle_reset_colors Let_def
          nth_setXYZ_other cp cc)
  qed
  then show ?case by simp
qed

lemma morphFrame_overwrites:
  assumes "j div 3 < n"
    and "j < length (currentPositions st)" and "j < length (positions (targetFields st RESET))"
    and "j < length (currentColors st)" and "j < length (colors (targetFields st RESET))"
  shows "positions (targetFields (morphFrame n hs t st) RESET) ! j
      = currentPositions (morphFrame n hs t st) ! j"
    and "colors (targetFields (morphFrame n hs t st) RESET) ! j
      = currentColors (morphFrame n hs t st) ! j"
  using fold_overwritten [OF assms] by (simp_all add: morphFrame_fold)

lemma morphRate_cases: "morphRate g = 0.1 \<or> morphRate g = 0.2"
  by (simp add: morphRate_def)

lemma targetAt_plain: "g \<noteq> RESET \<Longrightarrow> targetAt td g t j = positions td ! j"
proof -
  assume g: "g \<noteq> RESET"
  have m: "j mod 3 = 0 \<or> j mod 3 = 1 \<or> j mod 3 = 2" by presburger
  have e0: "j mod 3 = 0 \<Longrightarrow> j div 3 * 3 = j" by presburger
  have e1: "j mod 3 = 1 \<Longrightarrow> j div 3 * 3 + 1 = j" by presburger
  have e2: "j mod 3 = 2 \<Longrightarrow> j div 3 * 3 + 2 = j" by presburger
  have "targetAt td g t j =
      (if j mod 3 = 0 then positions td ! (j div 3 * 3)
       else if j mod 3 = 1 then positions td ! (j div 3 * 3 + 1)
       else positions td ! (j div 3 * 3 + 2))"
    by (simp add: targetAt_def effectiveTarget_def g Let_def del: One_nat_def)
  with m e0 e1 e2 show ?thesis by (auto simp del: One_nat_def)
qed

lemma fround_one: "fround 1 = 1"
  using fround_eval [of 1 0] by (simp add: roundEven_def powr_neg_numeral)

lemma fround_two_fifths: "fround (0 + (2 - 0) * 0.2) = 13421773 / 33554432"
  using fround_eval [of "0.4" "- 2"] by (simp add: roundEven_def powr_neg_numeral)

lemma fround_one_fifth: "fround (0 + (1 - 0) * 0.2) = 13421773 / 67108864"
  using fround_eval [of "0.2" "- 3"] by (simp add: roundEven_def powr_neg_numeral)

lemma fround_one_twentieth: "fround 0.05 = 13421773 / 268435456"
  using fround_eval [of "0.05" "- 5"] by (simp add: roundEven_def powr_neg_numeral)

lemma fround_next_after_one: "fround (1 + 1 / 2 ^ 23) = 1 + 1 / 2 ^ 23"
  using fround_eval [of "1 + 1 / 2 ^ 23" 0] by (simp add: roundEven_def powr_neg_numeral)

lemma fround_stuck_fast: "fround (1 + (1 + 1 / 2 ^ 23 - 1) * 0.2) = 1"
  using fround_eval [of "1 + (1 + 1 / 2 ^ 23 - 1) * 0.2" 0]
  by (simp add: roundEven_def powr_neg_numeral)

lemma fround_stuck_slow: "fround (1 + (1 + 1 / 2 ^ 23 - 1) * 0.1) = 1"
  using fround_eval [of "1 + (1 + 1 / 2 ^ 23 - 1) * 0.1" 0]
  by (simp add: roundEven_def powr_neg_numeral)

text \<open>
  C4. One morph step over fields of \<open>n\<close> particles: every cell \<open>3 i + k\<close> of the
  live positions is assigned \<open>current + (effectiveTarget - current) * rate\<close>, stored in
  single precision, with rate 0.2 when the gesture is \<open>LOVE\<close> and 0.1 otherwise, and
  every colour cell is assigned by the same rule with the same rate toward the same cell
  of the target colours. The target is the one selected at the start of the frame.
  Unless the gesture is \<open>RESET\<close>, the effective target of a cell is that cell of the
  selected target field, and the frame leaves that field as it was. The lengths of the
  live arrays do not change, and the frame callback is this step over \<open>PARTICLE_COUNT\<close>
  particles.
\<close>

theorem morph_step_rule:
  assumes "length (currentPositions st) = 3 * n" and "length (currentColors st) = 3 * n"
    and "length (positions (targetFields st (gesture handState))) = 3 * n"
    and "length (colors (targetFields st (gesture handState))) = 3 * n"
    and "i < n" and "k < 3"
  shows
    "(let g = gesture handState;
          target = targetFields st g;
          rate = (if g = LOVE then 0.2 else 0.1);
          st' = morphFrame n handState t st;
          j = 3 * i + k
      in currentPositions st' ! j =
           fround (currentPositions st ! j + (targetAt target g t j - currentPositions st ! j) * rate) \<and>
         currentColors st' ! j =
           fround (currentColors st ! j + (colors target ! j - currentColors st ! j) * rate) \<and>
         (g \<noteq> RESET \<longrightarrow> targetAt target g t j = positions target ! j) \<and>
         (g \<noteq> RESET \<longrightarrow> targetFields st' g = target) \<and>
         length (currentPositions st') = 3 * n \<and> length (currentColors st') = 3 * n \<and>
         useFrame True handState t st = morphFrame PARTICLE_COUNT handState t st)"
proof -
  let ?j = "3 * i + k"
  from assms(5,6) have d: "?j div 3 < n" and j: "?j < 3 * n" by simp_all
  from j assms(1) have jp: "?j < length (currentPositions st)" by simp
  from j assms(2) have jc: "?j < length (currentColors st)" by simp
  have r: "morphRate (gesture handState) = (if gesture handState = LOVE then 0.2 else 0.1)"
    by (simp add: morphRate_def)
  show ?thesis
    unfolding Let_def
    using morphFrame_positions [OF jp, of n handState t]
      morphFrame_colors [OF jc, of n handState t] d
      morphFrame_lengths(1,2) [of n handState t st] assms(1,2)
    by (simp add: r targetAt_plain useFrame_def morphFrame_fields_other)
qed

lemma demo_lengths:
  "length (currentPositions demoState) = 3 * 2" "length (currentColors demoState) = 3 * 2"
  "length (positions (targetFields demoState g)) = 3 * 2"
  "length (colors (targetFields demoState g)) = 3 * 2"
  by (simp_all add: demoState_def demoFields_def)

lemma demo_values:
  "gesture loveHand = LOVE" "gesture idleHand = RESET"
  "currentPositions demoState ! 4 = 0" "currentColors demoState ! 4 = 0"
  "positions (targetFields demoState g) ! 4 = 2" "colors (targetFields demoState g) ! 4 = 1"
  by (simp_all add: demoState_def demoFields_def loveHand_def idleHand_def)

text \<open>
  C4 at two particles under \<open>LOVE\<close>, for the cell 4 (particle 1, axis 1): the cell is
  assigned 0.4 and holds the nearest single, 0.4000000059604645.
\<close>

theorem morph_step_rule_witness:
  "length (currentPositions demoState) = 3 * 2 \<and> length (currentColors demoState) = 3 * 2 \<and>
   length (positions (targetFields demoState (gesture loveHand))) = 3 * 2 \<and>
   length (colors (targetFields demoState (gesture loveHand))) = 3 * 2 \<and>
   (1::nat) < 2 \<and> (1::nat) < 3 \<and>
   currentPositions (morphFrame 2 loveHand 0 demoState) ! 4 = fround (0 + (2 - 0) * 0.2) \<and>
   currentPositions (morphFrame 2 loveHand 0 demoState) ! 4 = 13421773 / 33554432 \<and>
   currentColors (morphFrame 2 loveHand 0 demoState) ! 4 = fround (0 + (1 - 0) * 0.2) \<and>
   currentColors (morphFrame 2 loveHand 0 demoState) ! 4 = 13421773 / 67108864"
proof -
  have n: "(1::nat) < 2" "(1::nat) < 3" and j: "3 * 1 + 1 = (4::nat)" by simp_all
  have e: "targetAt (targetFields demoState LOVE) LOVE 0 4 = 2"
    by (simp add: targetAt_plain demo_values)
  have l: "LOVE = LOVE \<longleftrightarrow> True" by simp
  from morph_step_rule [where st = demoState and n = 2
        and handState = loveHand and i = 1 and k = 1 and t = 0, OF demo_lengths n]
  have p: "currentPositions (morphFrame 2 loveHand 0 demoState) ! 4 = fround (0 + (2 - 0) * 0.2)"
    and c: "currentColors (morphFrame 2 loveHand 0 demoState) ! 4 = fround (0 + (1 - 0) * 0.2)"
    unfolding Let_def j demo_values e l if_True by blast+
  from p have p': "currentPositions (morphFrame 2 loveHand 0 demoState) ! 4 = 13421773 / 33554432"
    by (simp only: fround_two_fifths)
  from c have c': "currentColors (morphFrame 2 loveHand 0 demoState) ! 4 = 13421773 / 67108864"
    by (simp only: fround_one_fifth)
  from p p' c c' demo_lengths n show ?thesis by blast
qed

lemma approach_facts:
  fixes old e r :: real
  assumes r: "r = 0.1 \<or> r = 0.2"
  defines "new \<equiv> old + (e - old) * r"
  shows "\<bar>new - e\<bar> = (1 - r) * \<bar>old - e\<bar>"
    and "old \<noteq> e \<Longrightarrow> \<bar>new - e\<bar> < \<bar>old - e\<bar>"
    and "min old e \<le> new" and "new \<le> max old e"
    and "\<bar>new - old\<bar> = r * \<bar>e - old\<bar>"
proof -
  from r have r0: "0 < r" and r1: "r < 1" by auto
  have eq: "new - e = (1 - r) * (old - e)" by (simp add: new_def algebra_simps)
  from r1 show d: "\<bar>new - e\<bar> = (1 - r) * \<bar>old - e\<bar>" by (simp add: eq abs_mult)
  show "\<bar>new - e\<bar> < \<bar>old - e\<bar>" if "old \<noteq> e"
  proof -
    from that have "0 < \<bar>old - e\<bar>" by simp
    with r0 have "(1 - r) * \<bar>old - e\<bar> < 1 * \<bar>old - e\<bar>"
      by (intro mult_strict_right_mono) simp_all
    with d show ?thesis by simp
  qed
  have mv: "new - old = r * (e - old)" by (simp add: new_def)
  from r0 show "\<bar>new - old\<bar> = r * \<bar>e - old\<bar>" by (simp add: mv abs_mult)
  show "min old e \<le> new"
  proof (cases "old \<le> e")
    case True
    with r0 have "0 \<le> r * (e - old)" by simp
    with mv True show ?thesis by simp
  next
    case False
    then have "0 \<le> (1 - r) * (old - e)" using r1 by simp
    with eq False show ?thesis by simp
  qed
  show "new \<le> max old e"
  proof (cases "old \<le> e")
    case True
    then have "(1 - r) * (old - e) \<le> 0" using r1 by (simp add: mult_le_0_iff)
    with eq True show ?thesis by simp
  next
    case False
    then have "r * (e - old) \<le> 0" using r0 by (simp add: mult_le_0_iff)
    with mv False show ?thesis by simp
  qed
qed

lemma stored_approach:
  fixes old e r :: real
  assumes r: "r = 0.1 \<or> r = 0.2" and old: "float32 old" and e: "float32 e"
  defines "new \<equiv> fround (old + (e - old) * r)"
  shows "min old e \<le> new" and "new \<le> max old e"
    and "\<bar>new - e\<bar> \<le> \<bar>old - e\<bar>" and "\<bar>new - old\<bar> \<le> \<bar>e - old\<bar>"
    and "float32 new"
proof -
  let ?v = "old + (e - old) * r"
  from old e have fo: "fround old = old" and fe: "fround e = e"
    and bo: "\<bar>old\<bar> < 2 ^ 128" and be: "\<bar>e\<bar> < 2 ^ 128"
    by (simp_all add: float32_def)
  have fmin: "fround (min old e) = min old e" and fmax: "fround (max old e) = max old e"
    using fo fe by (simp_all add: min_def max_def)
  from fround_mono [OF approach_facts(3) [OF r, of old e]] fmin
  show lo: "min old e \<le> new" by (simp add: new_def)
  from fround_mono [OF approach_facts(4) [OF r, of old e]] fmax
  show hi: "new \<le> max old e" by (simp add: new_def)
  from lo hi show "\<bar>new - e\<bar> \<le> \<bar>old - e\<bar>" by (simp add: min_def max_def split: if_splits)
  from lo hi show "\<bar>new - old\<bar> \<le> \<bar>e - old\<bar>" by (simp add: min_def max_def split: if_splits)
  from lo hi bo be have "\<bar>new\<bar> < 2 ^ 128" by (simp add: min_def max_def split: if_splits)
  then show "float32 new" by (simp add: float32_def new_def fround_idem)
qed

text \<open>
  C5, as stated for the cells themselves, fails: a live cell holding 1 whose target is the
  next single above 1 is assigned \<open>1 + 0.2 / 2 ^ 23\<close> under \<open>LOVE\<close> and
  \<open>1 + 0.1 / 2 ^ 23\<close> under \<open>ONE\<close>, and the store rounds both back to 1: the distance
  to the target is not zero and does not decrease, and is not \<open>1 - rate\<close> times the
  distance before. A cell at 0 with target 2 is assigned 0.4 under \<open>LOVE\<close> and holds
  the next single above it, so it has moved by more than \<open>rate\<close> times its distance.
\<close>

theorem morph_step_exact_contraction_counterexample:
  "float32 (currentPositions stuckState ! 4) \<and>
   float32 (targetAt (targetFields stuckState LOVE) LOVE 0 4) \<and>
   targetAt (targetFields stuckState LOVE) LOVE 0 4 = targetAt (targetFields stuckState ONE) ONE 0 4 \<and>
   currentPositions stuckState ! 4 \<noteq> targetAt (targetFields stuckState LOVE) LOVE 0 4 \<and>
   currentPositions (morphFrame 2 loveHand 0 stuckState) ! 4 = currentPositions stuckState ! 4 \<and>
   currentPositions (morphFrame 2 oneHand 0 stuckState) ! 4 = currentPositions stuckState ! 4 \<and>
   \<not> \<bar>currentPositions (morphFrame 2 loveHand 0 stuckState) ! 4
        - targetAt (targetFields stuckState LOVE) LOVE 0 4\<bar>
      < \<bar>currentPositions stuckState ! 4 - targetAt (targetFields stuckState LOVE) LOVE 0 4\<bar> \<and>
   \<bar>currentPositions (morphFrame 2 loveHand 0 stuckState) ! 4
        - targetAt (targetFields stuckState LOVE) LOVE 0 4\<bar>
      \<noteq> (1 - morphRate LOVE)
          * \<bar>currentPositions stuckState ! 4 - targetAt (targetFields stuckState LOVE) LOVE 0 4\<bar> \<and>
   \<not> \<bar>currentPositions (morphFrame 2 oneHand 0 stuckState) ! 4
        - targetAt (targetFields stuckState ONE) ONE 0 4\<bar>
      < \<bar>currentPositions stuckState ! 4 - targetAt (targetFields stuckState ONE) ONE 0 4\<bar> \<and>
   \<not> \<bar>currentPositions (morphFrame 2 loveHand 0 demoState) ! 4 - currentPositions demoState ! 4\<bar>
      \<le> morphRate LOVE
          * \<bar>targetAt (targetFields demoState LOVE) LOVE 0 4 - currentPositions demoState ! 4\<bar>"
proof -
  have old: "currentPositions stuckState ! 4 = 1"
    and len: "4 < length (currentPositions stuckState)"
    by (simp_all add: stuckState_def)
  have eL: "targetAt (targetFields stuckState LOVE) LOVE 0 4 = 1 + 1 / 2 ^ 23"
    by (simp add: targetAt_plain stuckState_def stuckFields_def)
  have eO: "targetAt (targetFields stuckState ONE) ONE 0 4 = 1 + 1 / 2 ^ 23"
    by (simp add: targetAt_plain stuckState_def stuckFields_def)
  have g: "gesture loveHand = LOVE" "gesture oneHand = ONE"
    by (simp_all add: loveHand_def oneHand_def)
  have r: "morphRate LOVE = 0.2" "morphRate ONE = 0.1" by (simp_all add: morphRate_def)
  have d: "(4::nat) div 3 < 2" by simp
  have nL: "currentPositions (morphFrame 2 loveHand 0 stuckState) ! 4 = 1"
    using morphFrame_positions [OF len, of 2 loveHand 0] d
    unfolding g r old eL by (simp only: if_True fround_stuck_fast)
  have nO: "currentPositions (morphFrame 2 oneHand 0 stuckState) ! 4 = 1"
    using morphFrame_positions [OF len, of 2 oneHand 0] d
    unfolding g r old eO by (simp only: if_True fround_stuck_slow)
  have f1: "float32 1" by (simp add: float32_def fround_one)
  have f2: "float32 (1 + 1 / 2 ^ 23)"
  proof -
    have "\<bar>1 + 1 / 2 ^ 23\<bar> < (2::real) ^ 128" by simp
    with fround_next_after_one show ?thesis unfolding float32_def by blast
  qed
  have oldD: "currentPositions demoState ! 4 = 0"
    and lenD: "4 < length (currentPositions demoState)"
    by (simp_all add: demoState_def)
  have eD: "targetAt (targetFields demoState LOVE) LOVE 0 4 = 2"
    by (simp add: targetAt_plain demoState_def demoFields_def)
  have nD: "currentPositions (morphFrame 2 loveHand 0 demoState) ! 4 = 13421773 / 33554432"
    using morphFrame_positions [OF lenD, of 2 loveHand 0] d
    unfolding g r oldD eD by (simp only: if_True fround_two_fifths)
  show ?thesis
    unfolding nL nO nD old eL eO oldD eD r using f1 f2 by simp
qed

text \<open>
  C5. For the target of one step and the rate of the gesture (0.1 or 0.2): in every cell
  the value \<open>v\<close> that the step assigns is at \<open>1 - rate\<close> times the old distance from the
  target, strictly nearer when the old distance was not zero, and at \<open>rate\<close> times that
  distance from the old value. The cell holds \<open>v\<close> rounded to single precision. When
  the old value and the target are singles, the stored value lies between them, its
  distance to the target is at most the old distance, it has moved by at most the old
  distance, and it is a single again. The same holds of every colour cell. Unless the
  gesture is \<open>RESET\<close>, the next frame of the same gesture finds the same target.
\<close>

theorem morph_step_contracts:
  assumes "length (currentPositions st) = 3 * n" and "length (currentColors st) = 3 * n"
    and "length (positions (targetFields st (gesture handState))) = 3 * n"
    and "length (colors (targetFields st (gesture handState))) = 3 * n"
    and "j < 3 * n"
    and "float32 (currentPositions st ! j)"
    and "float32 (targetAt (targetFields st (gesture handState)) (gesture handState) t j)"
    and "float32 (currentColors st ! j)"
    and "float32 (colors (targetFields st (gesture handState)) ! j)"
  shows
    "(let g = gesture handState;
          target = targetFields st g;
          rate = morphRate g;
          st' = morphFrame n handState t st;
          old = currentPositions st ! j; e = targetAt target g t j;
          v = old + (e - old) * rate; new = currentPositions st' ! j;
          oldC = currentColors st ! j; eC = colors target ! j;
          vC = oldC + (eC - oldC) * rate; newC = currentColors st' ! j
      in (rate = 0.1 \<or> rate = 0.2) \<and>
         new = fround v \<and>
         \<bar>v - e\<bar> = (1 - rate) * \<bar>old - e\<bar> \<and>
         (old \<noteq> e \<longrightarrow> \<bar>v - e\<bar> < \<bar>old - e\<bar>) \<and>
         \<bar>v - old\<bar> = rate * \<bar>e - old\<bar> \<and>
         min old e \<le> new \<and> new \<le> max old e \<and>
         \<bar>new - e\<bar> \<le> \<bar>old - e\<bar> \<and> \<bar>new - old\<bar> \<le> \<bar>e - old\<bar> \<and>
         float32 new \<and>
         newC = fround vC \<and>
         \<bar>vC - eC\<bar> = (1 - rate) * \<bar>oldC - eC\<bar> \<and>
         (oldC \<noteq> eC \<longrightarrow> \<bar>vC - eC\<bar> < \<bar>oldC - eC\<bar>) \<and>
         \<bar>vC - oldC\<bar> = rate * \<bar>eC - oldC\<bar> \<and>
         min oldC eC \<le> newC \<and> newC \<le> max oldC eC \<and>
         \<bar>newC - eC\<bar> \<le> \<bar>oldC - eC\<bar> \<and> \<bar>newC - oldC\<bar> \<le> \<bar>eC - oldC\<bar> \<and>
         float32 newC \<and>
         (g \<noteq> RESET \<longrightarrow>
            targetAt (targetFields st' g) g t2 j = e \<and> colors (targetFields st' g) ! j = eC))"
proof -
  let ?g = "gesture handState"
  let ?st' = "morphFrame n handState t st"
  from assms(5) have d: "j div 3 < n" by simp
  from assms(1,5) have jp: "j < length (currentPositions st)" by simp
  from assms(2,5) have jc: "j < length (currentColors st)" by simp
  have r: "morphRate ?g = 0.1 \<or> morphRate ?g = 0.2" by (rule morphRate_cases)
  have p: "currentPositions ?st' ! j = fround (currentPositions st ! j +
      (targetAt (targetFields st ?g) ?g t j - currentPositions st ! j) * morphRate ?g)"
    using morphFrame_positions [OF jp, of n handState t] d by simp
  have c: "currentColors ?st' ! j = fround (currentColors st ! j +
      (colors (targetFields st ?g) ! j - currentColors st ! j) * morphRate ?g)"
    using morphFrame_colors [OF jc, of n handState t] d by simp
  note fp = approach_facts [OF r, of "currentPositions st ! j" "targetAt (targetFields st ?g) ?g t j"]
  note fc = approach_facts [OF r, of "currentColors st ! j" "colors (targetFields st ?g) ! j"]
  note sp = stored_approach [OF r assms(6,7), folded p]
  note sc = stored_approach [OF r assms(8,9), folded c]
  have nx: "?g \<noteq> RESET \<Longrightarrow>
      targetAt (targetFields ?st' ?g) ?g t2 j = targetAt (targetFields st ?g) ?g t j \<and>
      colors (targetFields ?st' ?g) ! j = colors (targetFields st ?g) ! j"
    by (simp add: morphFrame_fields_other targetAt_plain)
  from r p c fp(1,2,5) fc(1,2,5) sp sc nx show ?thesis
    unfolding Let_def by blast
qed

lemma fround_two: "fround 2 = 2"
  using fround_eval [of 2 1] by (simp add: roundEven_def powr_neg_numeral)

text \<open>C5 at two particles under \<open>LOVE\<close>, for the cell 4.\<close>

theorem morph_step_contracts_witness:
  "length (currentPositions demoState) = 3 * 2 \<and> length (currentColors demoState) = 3 * 2 \<and>
   length (positions (targetFields demoState (gesture loveHand))) = 3 * 2 \<and>
   length (colors (targetFields demoState (gesture loveHand))) = 3 * 2 \<and> (4::nat) < 3 * 2 \<and>
   float32 (currentPositions demoState ! 4) \<and>
   float32 (targetAt (targetFields demoState (gesture loveHand)) (gesture loveHand) 0 4) \<and>
   float32 (currentColors demoState ! 4) \<and>
   float32 (colors (targetFields demoState (gesture loveHand)) ! 4) \<and>
   currentPositions (morphFrame 2 loveHand 0 demoState) ! 4 = fround (0 + (2 - 0) * 0.2) \<and>
   \<bar>0 + (2 - 0) * 0.2 - 2\<bar> = (1 - 0.2) * \<bar>0 - (2::real)\<bar> \<and>
   min 0 2 \<le> currentPositions (morphFrame 2 loveHand 0 demoState) ! 4 \<and>
   currentPositions (morphFrame 2 loveHand 0 demoState) ! 4 \<le> max 0 2 \<and>
   \<bar>currentPositions (morphFrame 2 loveHand 0 demoState) ! 4 - 2\<bar> \<le> \<bar>0 - 2\<bar> \<and>
   \<bar>currentPositions (morphFrame 2 loveHand 0 demoState) ! 4 - 0\<bar> \<le> \<bar>2 - 0\<bar> \<and>
   float32 (currentPositions (morphFrame 2 loveHand 0 demoState) ! 4) \<and>
   targetAt (targetFields (morphFrame 2 loveHand 0 demoState) LOVE) LOVE 1 4 = 2"
proof -
  have n: "(4::nat) < 3 * 2" by simp
  have e: "targetAt (targetFields demoState LOVE) LOVE 0 4 = 2"
    by (simp add: targetAt_plain demo_values)
  have r: "morphRate LOVE = 0.2" by (simp add: morphRate_def)
  have f0: "float32 0" by (simp add: float32_def fround_zero)
  have f1: "float32 1" by (simp add: float32_def fround_one)
  have f2: "float32 2" by (simp add: float32_def fround_two)
  have ne: "LOVE \<noteq> RESET" by simp
  have h: "float32 (currentPositions demoState ! 4)"
    "float32 (targetAt (targetFields demoState (gesture loveHand)) (gesture loveHand) 0 4)"
    "float32 (currentColors demoState ! 4)"
    "float32 (colors (targetFields demoState (gesture loveHand)) ! 4)"
    unfolding demo_values e by (rule f0 f1 f2)+
  from morph_step_contracts [where st = demoState and n = 2
        and handState = loveHand and j = 4 and t = 0 and ?t2.0 = 1, OF demo_lengths n h] ne
  have "currentPositions (morphFrame 2 loveHand 0 demoState) ! 4 = fround (0 + (2 - 0) * 0.2)"
    and "\<bar>0 + (2 - 0) * 0.2 - 2\<bar> = (1 - 0.2) * \<bar>0 - (2::real)\<bar>"
    and "min 0 2 \<le> currentPositions (morphFrame 2 loveHand 0 demoState) ! 4"
    and "currentPositions (morphFrame 2 loveHand 0 demoState) ! 4 \<le> max 0 2"
    and "\<bar>currentPositions (morphFrame 2 loveHand 0 demoState) ! 4 - 2\<bar> \<le> \<bar>0 - 2\<bar>"
    and "\<bar>currentPositions (morphFrame 2 loveHand 0 demoState) ! 4 - 0\<bar> \<le> \<bar>2 - 0\<bar>"
    and "float32 (currentPositions (morphFrame 2 loveHand 0 demoState) ! 4)"
    and "targetAt (targetFields (morphFrame 2 loveHand 0 demoState) LOVE) LOVE 1 4 = 2"
    unfolding Let_def demo_values e r by blast+
  with demo_lengths n h show ?thesis by blast
qed

lemma effectiveTarget_RESET:
  "effectiveTarget td RESET t i =
     (positions td ! (3 * i) + sin (t * 0.5 + real i) * 0.5,
      positions td ! (3 * i + 1) + cos (t * 0.3 + real i * 0.5) * 0.5,
      positions td ! (3 * i + 2))"
  by (simp add: effectiveTarget_def Let_def mult.commute)

lemma targetAt_RESET:
  "targetAt td RESET t (3 * i) = positions td ! (3 * i) + sin (t * 0.5 + real i) * 0.5"
  "targetAt td RESET t (3 * i + 1) = positions td ! (3 * i + 1) + cos (t * 0.3 + real i * 0.5) * 0.5"
  "targetAt td RESET t (3 * i + 2) = positions td ! (3 * i + 2)"
proof -
  have d: "(3 * i) div 3 = i" "(3 * i + 1) div 3 = i" "(3 * i + 2) div 3 = i" by simp_all
  have m: "(3 * i) mod 3 = 0" "(3 * i + 1) mod 3 = 1" "(3 * i + 2) mod 3 = 2" by presburger+
  show "targetAt td RESET t (3 * i) = positions td ! (3 * i) + sin (t * 0.5 + real i) * 0.5"
    unfolding targetAt_def d m effectiveTarget_RESET by simp
  show "targetAt td RESET t (3 * i + 1) =
      positions td ! (3 * i + 1) + cos (t * 0.3 + real i * 0.5) * 0.5"
    unfolding targetAt_def d m effectiveTarget_RESET by simp
  show "targetAt td RESET t (3 * i + 2) = positions td ! (3 * i + 2)"
    unfolding targetAt_def d m effectiveTarget_RESET by simp
qed

lemma half_sin_bound: "\<bar>sin (a::real) * 0.5\<bar> \<le> 0.5"
  using abs_sin_le_one [of a] by (simp add: abs_mult)

lemma half_cos_bound: "\<bar>cos (a::real) * 0.5\<bar> \<le> 0.5"
  using abs_cos_le_one [of a] by (simp add: abs_mult)

text \<open>
  C9. Under \<open>RESET\<close> the effective target of particle \<open>i\<close> in a frame at time \<open>t\<close> is
  the \<open>RESET\<close> target as that frame finds it, with \<open>sin (t * 0.5 + i) * 0.5\<close> added to x
  and \<open>cos (t * 0.3 + i * 0.5) * 0.5\<close> added to y, and z as it is; both offsets are at
  most 0.5 in absolute value, at every time and index; and the frame moves the three
  cells toward this target at rate 0.1. But the arrays of the two buffer attributes are
  the arrays of the \<open>RESET\<close> target itself, so the frame also stores every live cell into
  that target: after the frame the \<open>RESET\<close> target is the live field, positions and
  colours, and a later frame at time \<open>t2\<close> takes as its effective target the live
  position that the earlier frame left, with the offset of \<open>t2\<close>, not the cloud that
  was generated. The offset of the earlier frame is kept in the target.
\<close>

theorem idle_target_overwritten:
  assumes "length (currentPositions st) = 3 * n" and "length (currentColors st) = 3 * n"
    and "length (positions (targetFields st RESET)) = 3 * n"
    and "length (colors (targetFields st RESET)) = 3 * n"
    and "gesture handState = RESET" and "i < n"
  shows
    "(let cloud = targetFields st RESET;
          ox = sin (t * 0.5 + real i) * 0.5;
          oy = cos (t * 0.3 + real i * 0.5) * 0.5;
          cp = currentPositions st;
          st' = morphFrame n handState t st;
          cp' = currentPositions st'
      in effectiveTarget cloud RESET t i =
           (positions cloud ! (3 * i) + ox, positions cloud ! (3 * i + 1) + oy,
            positions cloud ! (3 * i + 2)) \<and>
         \<bar>ox\<bar> \<le> 0.5 \<and> \<bar>oy\<bar> \<le> 0.5 \<and>
         cp' ! (3 * i) =
           fround (cp ! (3 * i) + (positions cloud ! (3 * i) + ox - cp ! (3 * i)) * 0.1) \<and>
         cp' ! (3 * i + 1) =
           fround (cp ! (3 * i + 1) + (positions cloud ! (3 * i + 1) + oy - cp ! (3 * i + 1)) * 0.1) \<and>
         cp' ! (3 * i + 2) =
           fround (cp ! (3 * i + 2) + (positions cloud ! (3 * i + 2) - cp ! (3 * i + 2)) * 0.1) \<and>
         (\<forall>j < 3 * n. positions (targetFields st' RESET) ! j = cp' ! j \<and>
            colors (targetFields st' RESET) ! j = currentColors st' ! j) \<and>
         effectiveTarget (targetFields st' RESET) RESET t2 i =
           (cp' ! (3 * i) + sin (t2 * 0.5 + real i) * 0.5,
            cp' ! (3 * i + 1) + cos (t2 * 0.3 + real i * 0.5) * 0.5,
            cp' ! (3 * i + 2)))"
proof -
  let ?st' = "morphFrame n handState t st"
  have r: "morphRate RESET = 0.1" by (simp add: morphRate_def)
  have ov: "positions (targetFields ?st' RESET) ! j = currentPositions ?st' ! j \<and>
      colors (targetFields ?st' RESET) ! j = currentColors ?st' ! j" if "j < 3 * n" for j
  proof -
    from that have "j div 3 < n" by simp
    moreover from that assms(1-4) have "j < length (currentPositions st)"
      "j < length (positions (targetFields st RESET))"
      "j < length (currentColors st)" "j < length (colors (targetFields st RESET))" by simp_all
    ultimately show ?thesis by (simp add: morphFrame_overwrites)
  qed
  from assms(6) have j: "3 * i < 3 * n" "3 * i + 1 < 3 * n" "3 * i + 2 < 3 * n" by simp_all
  have d: "(3 * i) div 3 < n" "(3 * i + 1) div 3 < n" "(3 * i + 2) div 3 < n"
    using assms(6) by simp_all
  from j assms(1) have l: "3 * i < length (currentPositions st)"
    "3 * i + 1 < length (currentPositions st)" "3 * i + 2 < length (currentPositions st)"
    by simp_all
  have c0: "currentPositions ?st' ! (3 * i) = fround (currentPositions st ! (3 * i) +
      (positions (targetFields st RESET) ! (3 * i) + sin (t * 0.5 + real i) * 0.5
        - currentPositions st ! (3 * i)) * 0.1)"
    using morphFrame_positions [OF l(1), of n handState t] d(1)
    unfolding assms(5) r targetAt_RESET by (simp only: if_True)
  have c1: "currentPositions ?st' ! (3 * i + 1) = fround (currentPositions st ! (3 * i + 1) +
      (positions (targetFields st RESET) ! (3 * i + 1) + cos (t * 0.3 + real i * 0.5) * 0.5
        - currentPositions st ! (3 * i + 1)) * 0.1)"
    using morphFrame_positions [OF l(2), of n handState t] d(2)
    unfolding assms(5) r targetAt_RESET by (simp only: if_True)
  have c2: "currentPositions ?st' ! (3 * i + 2) = fround (currentPositions st ! (3 * i + 2) +
      (positions (targetFields st RESET) ! (3 * i + 2) - currentPositions st ! (3 * i + 2)) * 0.1)"
    using morphFrame_positions [OF l(3), of n handState t] d(3)
    unfolding assms(5) r targetAt_RESET by (simp only: if_True)
  have nx: "effectiveTarget (targetFields ?st' RESET) RESET t2 i =
      (currentPositions ?st' ! (3 * i) + sin (t2 * 0.5 + real i) * 0.5,
       currentPositions ?st' ! (3 * i + 1) + cos (t2 * 0.3 + real i * 0.5) * 0.5,
       currentPositions ?st' ! (3 * i + 2))"
    unfolding effectiveTarget_RESET using ov [OF j(1)] ov [OF j(2)] ov [OF j(3)]
    by (simp only:)
  have b: "\<bar>sin (t * 0.5 + real i) * 0.5\<bar> \<le> 0.5" "\<bar>cos (t * 0.3 + real i * 0.5) * 0.5\<bar> \<le> 0.5"
    by (rule half_sin_bound half_cos_bound)+
  from ov have ov': "\<forall>j<3 * n. positions (targetFields ?st' RESET) ! j = currentPositions ?st' ! j \<and>
      colors (targetFields ?st' RESET) ! j = currentColors ?st' ! j" by blast
  from effectiveTarget_RESET [of "targetFields st RESET" t i] b c0 c1 c2 ov' nx
  show ?thesis unfolding Let_def by blast
qed

lemma idle_lengths:
  "length (currentPositions idleState) = 3 * 2" "length (currentColors idleState) = 3 * 2"
  "length (positions (targetFields idleState RESET)) = 3 * 2"
  "length (colors (targetFields idleState RESET)) = 3 * 2"
  by (simp_all add: idleState_def initialMorphState_def originCloud_def)

text \<open>
  C9 at a cloud of two particles at the origin, for particle 0 and two frames at time 0.
  The first frame finds the cloud and aims at \<open>y = 0.5\<close>; it leaves the live \<open>y\<close>, the
  single nearest 0.05, in the \<open>RESET\<close> target; the second frame aims at that plus 0.5, more
  than 0.5 away from the cloud.
\<close>

theorem idle_target_overwritten_witness:
  "length (currentPositions idleState) = 3 * 2 \<and> length (currentColors idleState) = 3 * 2 \<and>
   length (positions (targetFields idleState RESET)) = 3 * 2 \<and>
   length (colors (targetFields idleState RESET)) = 3 * 2 \<and>
   gesture idleHand = RESET \<and> (0::nat) < 2 \<and>
   positions (targetFields idleState RESET) ! 1 = 0 \<and>
   effectiveTarget (targetFields idleState RESET) RESET 0 0 = (0, 1 / 2, 0) \<and>
   currentPositions (morphFrame 2 idleHand 0 idleState) ! 1 = 13421773 / 268435456 \<and>
   positions (targetFields (morphFrame 2 idleHand 0 idleState) RESET) ! 1 = 13421773 / 268435456 \<and>
   effectiveTarget (targetFields (morphFrame 2 idleHand 0 idleState) RESET) RESET 0 0
     = (0, 13421773 / 268435456 + 1 / 2, 0) \<and>
   1 / 2 < \<bar>13421773 / 268435456 + 1 / 2 - positions (targetFields idleState RESET) ! 1\<bar>"
proof -
  have n: "(0::nat) < 2" by simp
  have g: "gesture idleHand = RESET" by (simp add: idleHand_def)
  have v: "currentPositions idleState ! 0 = 0" "currentPositions idleState ! 1 = 0"
    "currentPositions idleState ! 2 = 0"
    "positions (targetFields idleState RESET) ! 0 = 0"
    "positions (targetFields idleState RESET) ! 1 = 0"
    "positions (targetFields idleState RESET) ! 2 = 0"
    by (simp_all add: idleState_def initialMorphState_def originCloud_def)
  have vs: "currentPositions idleState ! Suc 0 = 0"
    "currentPositions idleState ! Suc (Suc 0) = 0"
    "positions (targetFields idleState RESET) ! Suc 0 = 0"
    "positions (targetFields idleState RESET) ! Suc (Suc 0) = 0"
    by (simp_all add: idleState_def initialMorphState_def originCloud_def)
  note v = v vs
  have f: "fround (1 / 20) = 13421773 / 268435456"
    using fround_one_twentieth by simp
  note th = idle_target_overwritten [where st = idleState and n = 2 and handState = idleHand
      and i = 0 and t = 0 and ?t2.0 = 0, OF idle_lengths g n, unfolded Let_def]
  from th have e1: "effectiveTarget (targetFields idleState RESET) RESET 0 0 = (0, 1 / 2, 0)"
    by (simp add: v)
  from th have c: "currentPositions (morphFrame 2 idleHand 0 idleState) ! 1 = 13421773 / 268435456"
    by (simp add: v f)
  from th have c0: "currentPositions (morphFrame 2 idleHand 0 idleState) ! 0 = 0"
    by (simp add: v fround_zero)
  from th have c2: "currentPositions (morphFrame 2 idleHand 0 idleState) ! Suc (Suc 0) = 0"
    by (simp add: v fround_zero)
  from th have "\<forall>j<6. positions (targetFields (morphFrame 2 idleHand 0 idleState) RESET) ! j
      = currentPositions (morphFrame 2 idleHand 0 idleState) ! j" by simp
  then have "positions (targetFields (morphFrame 2 idleHand 0 idleState) RESET) ! 1
      = currentPositions (morphFrame 2 idleHand 0 idleState) ! 1" by simp
  with c have p: "positions (targetFields (morphFrame 2 idleHand 0 idleState) RESET) ! 1
      = 13421773 / 268435456" by simp
  from th have e2: "effectiveTarget (targetFields (morphFrame 2 idleHand 0 idleState) RESET) RESET 0 0
     = (0, 13421773 / 268435456 + 1 / 2, 0)"
    using c c0 c2 by simp
  show ?thesis
    using idle_lengths g n v(5) e1 c p e2 by simp
qed

subsection \<open>The target fields\<close>

lemma length_zeroField:
  "length (positions (zeroField n)) = 3 * n" "length (colors (zeroField n)) = 3 * n"
  by (simp_all add: zeroField_def mult.commute)

lemma cloudParticle_fold_lengths:
  "length (positions (fold (cloudParticle rnd) is f)) = length (positions f) \<and>
   length (colors (fold (cloudParticle rnd) is f)) = length (colors f)"
  by (induction "is" arbitrary: f) (simp_all add: cloudParticle_def Let_def)

lemma generateCloudParticles_lengths:
  "length (positions (generateCloudParticles rnd n)) = 3 * n"
  "length (colors (generateCloudParticles rnd n)) = 3 * n"
  by (simp_all add: generateCloudParticles_def cloudParticle_fold_lengths length_zeroField)

lemma cloud_colors_fold:
  "colors (fold (cloudParticle rnd) is f) =
     fold (\<lambda>i cs. cs [i * 3 := 0.1, i * 3 + 1 := 0.15, i * 3 + 2 := 0.2]) is (colors f)"
  by (induction "is" arbitrary: f) (simp_all add: cloudParticle_def Let_def)

lemma cloud_colors_nth:
  assumes "j < 3 * n"
  shows "colors (generateCloudParticles rnd n) ! j =
     (if j mod 3 = 0 then 0.1 else if j mod 3 = 1 then 0.15 else 0.2)"
proof -
  let ?F = "\<lambda>i (cs :: real list). cs [i * 3 := 0.1, i * 3 + 1 := 0.15, i * 3 + 2 := 0.2]"
  let ?upd = "\<lambda>j (v :: real). if j mod 3 = 0 then 0.1 else if j mod 3 = 1 then 0.15 else (0.2 :: real)"
  have len: "\<And>i xs. length (?F i xs) = length xs" by simp
  have nth: "?F i xs ! j = (if j div 3 = i then ?upd j (xs ! j) else xs ! j)"
    if "j < length xs" for i xs j
    using that by (cases i j rule: slot_cases) simp_all
  from assms have j: "j < length (colors (zeroField n))" by (simp add: length_zeroField)
  from assms have d: "j div 3 < n" by simp
  show ?thesis
    unfolding generateCloudParticles_def cloud_colors_fold
    using fold_slots_nth [of ?F ?upd j "colors (zeroField n)" n, OF len nth j] d
    by simp
qed

lemma litPixels_filter:
  "fold (scanPixel data) [0..<k] ([], []) =
     (filter (isLit data) [0..<k], map (normalizedColor data) (filter (isLit data) [0..<k]))"
  by (induction k) (simp_all add: scanPixel_def isLit_def normalizedColor_def Let_def)

lemma litPixels_eq:
  "litPixels data w h =
     (filter (isLit data) [0..<w * h],
      map (normalizedColor data) (filter (isLit data) [0..<w * h]))"
  by (simp add: litPixels_def litPixels_filter)

lemma forEachParticle_fold:
  assumes "\<And>i f. i \<in> set is \<Longrightarrow> body i f = Inr (pure i f)"
  shows "forEachParticle body is f = Inr (fold pure is f)"
  using assms by (induction "is" arbitrary: f) simp_all

lemma sampleIdx_range:
  assumes "0 \<le> rnd i" "rnd i < 1" "vp \<noteq> []"
  shows "0 \<le> sampleIdx rnd vp i" and "sampleIdx rnd vp i < int (length vp)"
proof -
  from assms(3) have pos: "0 < real (length vp)" by simp
  with assms(1) have "0 \<le> rnd i * real (length vp)" by simp
  then show "0 \<le> sampleIdx rnd vp i" by (simp add: sampleIdx_def)
  from assms(2) pos have "rnd i * real (length vp) < 1 * real (length vp)"
    by (intro mult_strict_right_mono) simp_all
  then have "rnd i * real (length vp) < of_int (int (length vp))" by simp
  then show "sampleIdx rnd vp i < int (length vp)"
    unfolding sampleIdx_def by (simp only: floor_less_iff)
qed

lemma textParticle_ok:
  assumes "unitRandom rnd" "vp \<noteq> []" "length pc = length vp"
  shows "textParticle rnd w h vp pc i f =
     Inr (placeParticle w h (vp ! nat (sampleIdx rnd vp i)) (pc ! nat (sampleIdx rnd vp i)) i f)"
proof -
  from assms(1) have r: "0 \<le> rnd i" "rnd i < 1" by (simp_all add: unitRandom_def)
  from sampleIdx_range [where rnd = rnd and i = i and vp = vp, OF r assms(2)] assms(3)
  show ?thesis
    by (simp add: textParticle_def Let_def)
qed

lemma placeParticle_fold_lengths:
  "length (positions (fold (\<lambda>i. placeParticle w h (P i) (C i) i) is f)) = length (positions f) \<and>
   length (colors (fold (\<lambda>i. placeParticle w h (P i) (C i) i) is f)) = length (colors f)"
  by (induction "is" arbitrary: f) (simp_all add: placeParticle_def Let_def)

lemma placeParticle_colors_fold:
  "colors (fold (\<lambda>i. placeParticle w h (P i) (C i) i) is f) =
     fold (\<lambda>i cs. cs [i * 3 := red (C i), i * 3 + 1 := green (C i), i * 3 + 2 := blue (C i)])
       is (colors f)"
  by (induction "is" arbitrary: f) (simp_all add: placeParticle_def Let_def)

lemma placeParticle_colors_nth:
  assumes "j < length (colors f)" "j div 3 < n"
  shows "colors (fold (\<lambda>i. placeParticle w h (P i) (C i) i) [0..<n] f) ! j =
     (if j mod 3 = 0 then red (C (j div 3)) else if j mod 3 = 1 then green (C (j div 3))
      else blue (C (j div 3)))"
proof -
  let ?F = "\<lambda>i (cs :: real list).
      cs [i * 3 := red (C i), i * 3 + 1 := green (C i), i * 3 + 2 := blue (C i)]"
  let ?upd = "\<lambda>j (v :: real). if j mod 3 = 0 then red (C (j div 3))
      else if j mod 3 = 1 then green (C (j div 3)) else blue (C (j div 3))"
  have len: "\<And>i xs. length (?F i xs) = length xs" by simp
  have nth: "?F i xs ! j = (if j div 3 = i then ?upd j (xs ! j) else xs ! j)"
    if "j < length xs" for i xs j
    using that by (cases i j rule: slot_cases) simp_all
  show ?thesis
    unfolding placeParticle_colors_fold
    using fold_slots_nth [of ?F ?upd j "colors f" n, OF len nth assms(1)] assms(2)
    by simp
qed

lemma textHeight_eq: "nat \<lceil>fontSize * 1.5\<rceil> = canvasHeight"
  by (simp add: fontSize_def canvasHeight_def)

lemma generateTextParticles_Some:
  "generateTextParticles (Some c) rnd text n =
     (if litIndices c text = [] then Inr (generateCloudParticles rnd n)
      else forEachParticle
        (textParticle rnd (canvasWidth c text) canvasHeight (litIndices c text)
           (map (normalizedColor (imageData c text)) (litIndices c text)))
        [0..<n] (zeroField n))"
  unfolding generateTextParticles_def option.case Let_def textHeight_eq
  by (simp add: litPixels_eq litIndices_def imageData_def canvasWidth_def)

lemma generateTextParticles_normal:
  assumes "unitRandom rnd" "litIndices c text \<noteq> []"
  shows "generateTextParticles (Some c) rnd text n =
     Inr (fold (\<lambda>i. placeParticle (canvasWidth c text) canvasHeight
            (litIndices c text ! nat (sampleIdx rnd (litIndices c text) i))
            (map (normalizedColor (imageData c text)) (litIndices c text)
               ! nat (sampleIdx rnd (litIndices c text) i)) i)
          [0..<n] (zeroField n))"
  unfolding generateTextParticles_Some
  using assms
  by (simp add: forEachParticle_fold textParticle_ok)

lemma generateTextParticles_lengths:
  assumes "unitRandom rnd"
  shows "\<exists>f. generateTextParticles ctx rnd text n = Inr f \<and>
     length (positions f) = 3 * n \<and> length (colors f) = 3 * n"
proof (cases ctx)
  case None
  then show ?thesis by (simp add: generateTextParticles_def length_zeroField)
next
  case (Some c)
  show ?thesis
  proof (cases "litIndices c text = []")
    case True
    with Some show ?thesis
      by (simp add: generateTextParticles_Some generateCloudParticles_lengths)
  next
    case False
    with Some assms show ?thesis
      by (simp add: generateTextParticles_normal placeParticle_fold_lengths length_zeroField)
  qed
qed

lemma targets_lengths:
  assumes "\<And>g. unitRandom (rnds g)"
  shows "\<exists>f. targets ctxs rnds g = Inr f \<and>
     length (positions f) = 3 * PARTICLE_COUNT \<and> length (colors f) = 3 * PARTICLE_COUNT"
  using generateTextParticles_lengths [OF assms]
  by (cases g) (simp_all add: targets_def generateCloudParticles_lengths)

lemma unitRandom_demo: "unitRandom halfRandom"
  by (simp add: unitRandom_def halfRandom_def)

lemma demo_canvas_size:
  "canvasWidth darkCanvas s = 60" "canvasWidth edgeCanvas s = 60"
  unfolding canvasWidth_def darkCanvas_def edgeCanvas_def by simp_all

lemma darkCanvas_data: "imageData darkCanvas s = replicate 43200 0"
  unfolding imageData_def demo_canvas_size canvasHeight_def
  by (simp add: darkCanvas_def)

lemma edgeCanvas_data:
  "imageData edgeCanvas s = [255, 255, 255, 255, 128, 128, 128, 255] @ replicate 43192 0"
  unfolding imageData_def demo_canvas_size canvasHeight_def
  by (simp add: edgeCanvas_def)

lemma darkCanvas_unlit:
  assumes "p < canvasWidth darkCanvas s * canvasHeight"
  shows "\<not> isLit (imageData darkCanvas s) p"
proof -
  from assms have "p < 10800" by (simp add: demo_canvas_size canvasHeight_def)
  then show ?thesis by (simp add: isLit_def darkCanvas_data)
qed

lemma edgeCanvas_lit:
  "isLit (imageData edgeCanvas s) 0" "isLit (imageData edgeCanvas s) 1"
  by (simp_all add: isLit_def edgeCanvas_data)

lemma nth_after_prefix:
  "length xs = 8 \<Longrightarrow> 8 \<le> k \<Longrightarrow> k < 8 + n \<Longrightarrow> (xs @ replicate n (0::nat)) ! k = 0"
  by (simp add: nth_append)

lemma edgeCanvas_dark_bytes:
  assumes "8 \<le> k" "k < 43200"
  shows "imageData edgeCanvas s ! k = 0"
  unfolding edgeCanvas_data
  by (rule nth_after_prefix) (use assms in simp_all)

lemma edgeCanvas_unlit:
  assumes "2 \<le> p" "p < 10800"
  shows "\<not> isLit (imageData edgeCanvas s) p"
proof -
  from assms have "imageData edgeCanvas s ! (p * 4) = 0"
    "imageData edgeCanvas s ! (p * 4 + 1) = 0" "imageData edgeCanvas s ! (p * 4 + 2) = 0"
    by (simp_all add: edgeCanvas_dark_bytes)
  then show ?thesis unfolding isLit_def by simp
qed

lemma darkCanvas_litIndices: "litIndices darkCanvas s = []"
proof -
  have "\<forall>p \<in> set [0..<canvasWidth darkCanvas s * canvasHeight].
      \<not> isLit (imageData darkCanvas s) p"
    by (simp add: darkCanvas_unlit del: upt_rec_numeral)
  then show ?thesis
    unfolding litIndices_def by (simp only: filter_empty_conv)
qed

lemma edgeCanvas_litIndices: "litIndices edgeCanvas s = [0, 1]"
proof -
  have a: "[0..<10800] = 0 # [Suc 0..<10800]" by (rule upt_conv_Cons) simp
  have b: "[Suc 0..<10800] = Suc 0 # [2..<10800]"
    unfolding numeral_2_eq_2 by (rule upt_conv_Cons) simp
  have "\<forall>p \<in> set [2..<10800]. \<not> isLit (imageData edgeCanvas s) p"
    by (simp add: edgeCanvas_unlit del: upt_rec_numeral)
  then have c: "filter (isLit (imageData edgeCanvas s)) [2..<10800] = []"
    by (simp only: filter_empty_conv)
  have l: "isLit (imageData edgeCanvas s) 0" "isLit (imageData edgeCanvas s) (Suc 0)"
    using edgeCanvas_lit [of s] by simp_all
  have w: "canvasWidth edgeCanvas s * canvasHeight = 10800"
    by (simp add: demo_canvas_size canvasHeight_def)
  have "filter (isLit (imageData edgeCanvas s)) [0..<10800] = [0, Suc 0]"
    unfolding a b using l c by (simp only: filter.simps if_True)
  then show ?thesis
    unfolding litIndices_def w by (simp only: One_nat_def)
qed

lemma useFrame_lengths:
  "length (currentPositions (useFrame m hs t st)) = length (currentPositions st)"
  "length (currentColors (useFrame m hs t st)) = length (currentColors st)"
  "length (positions (targetFields (useFrame m hs t st) g')) = length (positions (targetFields st g'))"
  "length (colors (targetFields (useFrame m hs t st) g')) = length (colors (targetFields st g'))"
  by (simp_all add: useFrame_def morphFrame_lengths)

lemma runFrames_lengths:
  "length (currentPositions (runFrames frames st)) = length (currentPositions st) \<and>
   length (currentColors (runFrames frames st)) = length (currentColors st) \<and>
   length (positions (targetFields (runFrames frames st) g')) = length (positions (targetFields st g')) \<and>
   length (colors (targetFields (runFrames frames st) g')) = length (colors (targetFields st g'))"
  by (induction frames st rule: runFrames.induct) (simp_all add: useFrame_lengths)

text \<open>
  C7. With \<open>Math.random\<close> in \<open>[0, 1)\<close>: the cloud generator returns positions and
  colours of length \<open>3 * n\<close>; the text generator returns, on every branch (no 2D
  context, no lit pixel, lit pixels), a field whose positions and colours have length
  \<open>3 * n\<close>; each of the five targets is a field of lengths \<open>3 * PARTICLE_COUNT\<close>; and
  through any run of frames the live positions and colours keep the lengths of the
  \<open>RESET\<close> target they were copied from, and every target, the one that the frames
  write into included, keeps its lengths.
\<close>

theorem field_lengths:
  assumes "unitRandom rnd" and "\<forall>g. unitRandom (rnds g)"
  shows
    "length (positions (generateCloudParticles rnd n)) = 3 * n \<and>
     length (colors (generateCloudParticles rnd n)) = 3 * n \<and>
     (\<exists>f. generateTextParticles ctx rnd text n = Inr f \<and>
        length (positions f) = 3 * n \<and> length (colors f) = 3 * n) \<and>
     (\<exists>f. targets ctxs rnds g = Inr f \<and>
        length (positions f) = 3 * PARTICLE_COUNT \<and> length (colors f) = 3 * PARTICLE_COUNT) \<and>
     length (currentPositions (runFrames frames (initialMorphState fields0)))
       = length (positions (fields0 RESET)) \<and>
     length (currentColors (runFrames frames (initialMorphState fields0)))
       = length (colors (fields0 RESET)) \<and>
     length (positions (targetFields (runFrames frames (initialMorphState fields0)) g'))
       = length (positions (fields0 g')) \<and>
     length (colors (targetFields (runFrames frames (initialMorphState fields0)) g'))
       = length (colors (fields0 g'))"
proof -
  from assms(2) have "\<And>g. unitRandom (rnds g)" by simp
  then have "\<exists>f. targets ctxs rnds g = Inr f \<and>
     length (positions f) = 3 * PARTICLE_COUNT \<and> length (colors f) = 3 * PARTICLE_COUNT"
    by (rule targets_lengths)
  with generateTextParticles_lengths [OF assms(1)] show ?thesis
    by (simp add: generateCloudParticles_lengths runFrames_lengths initialMorphState_def)
qed

text \<open>
  C7 at two particles, the canvas with two lit pixels, a missing context, and one frame
  under \<open>LOVE\<close> and one under \<open>RESET\<close> over fields of two particles.
\<close>

theorem field_lengths_witness:
  "unitRandom halfRandom \<and> (\<forall>g. unitRandom halfRandom) \<and>
   length (positions (generateCloudParticles halfRandom 2)) = 3 * 2 \<and>
   (\<exists>f. generateTextParticles (Some edgeCanvas) halfRandom loveText 2 = Inr f \<and>
      length (positions f) = 3 * 2 \<and> length (colors f) = 3 * 2) \<and>
   (\<exists>f. targets (\<lambda>g. None) (\<lambda>g. halfRandom) LOVE = Inr f \<and>
      length (positions f) = 3 * PARTICLE_COUNT \<and> length (colors f) = 3 * PARTICLE_COUNT) \<and>
   length (currentPositions
      (runFrames [(True, loveHand, 0), (True, idleHand, 1)] (initialMorphState demoFields))) = 6 \<and>
   length (positions (targetFields
      (runFrames [(True, loveHand, 0), (True, idleHand, 1)] (initialMorphState demoFields)) RESET)) = 6"
proof -
  have u: "unitRandom halfRandom" by (rule unitRandom_demo)
  then have a: "\<forall>g::GestureType. unitRandom ((\<lambda>g. halfRandom) g)" by simp
  have l: "length (positions (demoFields RESET)) = 6" by (simp add: demoFields_def)
  note th = field_lengths [where rnd = halfRandom and rnds = "\<lambda>g. halfRandom" and n = 2
      and ctx = "Some edgeCanvas" and ctxs = "\<lambda>g. None" and g = LOVE
      and frames = "[(True, loveHand, 0), (True, idleHand, 1)]" and ?fields0.0 = demoFields
      and g' = RESET, OF u a]
  from th l have "length (currentPositions
      (runFrames [(True, loveHand, 0), (True, idleHand, 1)] (initialMorphState demoFields))) = 6"
    and "length (positions (targetFields
      (runFrames [(True, loveHand, 0), (True, idleHand, 1)] (initialMorphState demoFields)) RESET)) = 6"
    by simp_all
  with th u show ?thesis by blast
qed

text \<open>
  C8. When the canvas has a 2D context and no pixel of the image data is lit, the list
  of valid pixels is empty and \<open>generateTextParticles\<close> returns the field of
  \<open>generateCloudParticles\<close> for the same particle count.
\<close>

theorem empty_lit_set_falls_back:
  assumes "length (imageData c text) = 4 * canvasWidth c text * canvasHeight"
    and "\<forall>p < canvasWidth c text * canvasHeight. \<not> isLit (imageData c text) p"
  shows "generateTextParticles (Some c) rnd text n = Inr (generateCloudParticles rnd n) \<and>
     fst (litPixels (imageData c text) (canvasWidth c text) canvasHeight) = []"
proof -
  from assms(2) have "litIndices c text = []"
    unfolding litIndices_def by (simp add: filter_empty_conv)
  then show ?thesis
    by (simp add: generateTextParticles_Some litPixels_eq litIndices_def)
qed

text \<open>C8 at the all-black canvas.\<close>

theorem empty_lit_set_falls_back_witness:
  "generateTextParticles (Some darkCanvas) halfRandom ''1'' 2
     = Inr (generateCloudParticles halfRandom 2) \<and>
   fst (litPixels (imageData darkCanvas ''1'') (canvasWidth darkCanvas ''1'') canvasHeight) = []"
proof -
  have "length (imageData darkCanvas ''1'') = 4 * canvasWidth darkCanvas ''1'' * canvasHeight"
    by (simp add: darkCanvas_data demo_canvas_size canvasHeight_def)
  moreover have "\<forall>p < canvasWidth darkCanvas ''1'' * canvasHeight.
      \<not> isLit (imageData darkCanvas ''1'') p"
    by (simp add: darkCanvas_unlit)
  ultimately show ?thesis by (rule empty_lit_set_falls_back)
qed

text \<open>
  C10. Without a 2D context \<open>generateTextParticles\<close> returns positions and colours of
  length \<open>3 * n\<close> whose cells are all zero. For \<open>n > 0\<close> this is not a cloud field:
  the colours of a cloud field are not zero.
\<close>

theorem missing_context_zero_field:
  "\<exists>f. generateTextParticles None rnd text n = Inr f \<and>
     f = \<lparr> positions = replicate (3 * n) 0, colors = replicate (3 * n) 0 \<rparr> \<and>
     length (positions f) = 3 * n \<and> length (colors f) = 3 * n \<and>
     (\<forall>j < 3 * n. positions f ! j = 0 \<and> colors f ! j = 0) \<and>
     (0 < n \<longrightarrow> f \<noteq> generateCloudParticles rnd' n)"
proof -
  let ?f = "\<lparr> positions = replicate (3 * n) (0::real), colors = replicate (3 * n) (0::real) \<rparr>"
  have g: "generateTextParticles None rnd text n = Inr ?f"
    by (simp add: generateTextParticles_def zeroField_def mult.commute)
  have "?f \<noteq> generateCloudParticles rnd' n" if "0 < n"
  proof
    assume "?f = generateCloudParticles rnd' n"
    then have "colors (generateCloudParticles rnd' n) ! 0 = replicate (3 * n) (0::real) ! 0"
      by (metis particleField.select_convs(2))
    moreover from that have "(0::nat) < 3 * n" by simp
    ultimately show False using that by (simp add: cloud_colors_nth)
  qed
  with g show ?thesis by simp
qed

text \<open>C10 at two particles.\<close>

theorem missing_context_zero_field_witness:
  "generateTextParticles None halfRandom ''1'' 2 =
     Inr \<lparr> positions = replicate (3 * 2) 0, colors = replicate (3 * 2) 0 \<rparr> \<and>
   \<lparr> positions = replicate (3 * 2) 0, colors = replicate (3 * 2) 0 \<rparr>
     \<noteq> generateCloudParticles halfRandom 2"
  using missing_context_zero_field [of halfRandom "''1''" 2 halfRandom] by auto

lemma drawCommands_love:
  "drawCommands loveText W H =
     [FillRect ''#000000'' 0 0 W H,
      FillText ''#FFFFFF'' ArialFont ''I'' (W / 2 - 144) (H / 2),
      FillText ''#FF0000'' EmojiFont heartGlyph (W / 2) (H / 2),
      FillText ''#FFFFFF'' ArialFont ''U'' (W / 2 + 144) (H / 2)]"
  by (simp add: drawCommands_def Let_def fontSize_def)

lemma drawCommands_plain:
  "text \<noteq> loveText \<Longrightarrow>
   drawCommands text W H =
     [FillRect ''#000000'' 0 0 W H, FillText ''#FFFFFF'' ArialFont text (W / 2) (H / 2)]"
  by (simp add: drawCommands_def)

lemma litIndices_member:
  "p \<in> set (litIndices c text) \<longleftrightarrow>
     p < canvasWidth c text * canvasHeight \<and> isLit (imageData c text) p"
  by (auto simp: litIndices_def)

lemma text_particle_color:
  assumes u: "unitRandom rnd" and ne: "litIndices c text \<noteq> []" and i: "i < n"
  defines "p \<equiv> litIndices c text ! nat (sampleIdx rnd (litIndices c text) i)"
  shows "\<exists>f. generateTextParticles (Some c) rnd text n = Inr f \<and>
     p \<in> set (litIndices c text) \<and>
     colors f ! (3 * i) = red (normalizedColor (imageData c text) p) \<and>
     colors f ! (3 * i + 1) = green (normalizedColor (imageData c text) p) \<and>
     colors f ! (3 * i + 2) = blue (normalizedColor (imageData c text) p)"
proof -
  let ?vp = "litIndices c text"
  let ?s = "\<lambda>i. nat (sampleIdx rnd ?vp i)"
  let ?C = "\<lambda>i. map (normalizedColor (imageData c text)) ?vp ! ?s i"
  let ?f = "fold (\<lambda>i. placeParticle (canvasWidth c text) canvasHeight (?vp ! ?s i) (?C i) i)
      [0..<n] (zeroField n)"
  from u have r: "0 \<le> rnd i" "rnd i < 1" by (simp_all add: unitRandom_def)
  from sampleIdx_range [where rnd = rnd and i = i and vp = ?vp, OF r ne]
  have s: "?s i < length ?vp" by simp
  then have mem: "p \<in> set ?vp" by (simp add: p_def)
  from s have C: "?C i = normalizedColor (imageData c text) p" by (simp add: p_def)
  have g: "generateTextParticles (Some c) rnd text n = Inr ?f"
    using u ne by (rule generateTextParticles_normal)
  from i have l: "3 * i < length (colors (zeroField n))" "3 * i + 1 < length (colors (zeroField n))"
    "3 * i + 2 < length (colors (zeroField n))"
    by (simp_all add: length_zeroField)
  from i have d: "(3 * i) div 3 < n" "(3 * i + 1) div 3 < n" "(3 * i + 2) div 3 < n" by simp_all
  have dv: "(3 * i) div 3 = i" "(3 * i + 1) div 3 = i" "(3 * i + 2) div 3 = i" by simp_all
  have md: "(3 * i) mod 3 = 0" "(3 * i + 1) mod 3 = 1" "(3 * i + 2) mod 3 = 2" by presburger+
  note nth = placeParticle_colors_nth [where f = "zeroField n" and n = n
      and w = "canvasWidth c text" and h = canvasHeight and P = "\<lambda>i. ?vp ! ?s i" and C = ?C]
  have c0: "colors ?f ! (3 * i) = red (?C i)"
    using nth [OF l(1) d(1)] unfolding dv md by simp
  have c1: "colors ?f ! (3 * i + 1) = green (?C i)"
    using nth [OF l(2) d(2)] unfolding dv md by simp
  have c2: "colors ?f ! (3 * i + 2) = blue (?C i)"
    using nth [OF l(3) d(3)] unfolding dv md by simp
  from g mem c0 c1 c2 show ?thesis unfolding C by blast
qed

text \<open>
  C6 as stated fails. On the canvas whose pixel 1 is a half-bright grey, the one particle
  of the \<open>LOVE\<close> field samples that lit pixel and gets its colour
  \<open>(128/255, 128/255, 128/255)\<close>, read from the pixel: neither white nor red.
\<close>

theorem text_colors_by_glyph_counterexample:
  "generateTextParticles (Some edgeCanvas) halfRandom loveText 1 = Inr edgeField \<and>
   isLit (imageData edgeCanvas loveText) 1 \<and>
   normalizedColor (imageData edgeCanvas loveText) 1
     = \<lparr> red = 128 / 255, green = 128 / 255, blue = 128 / 255 \<rparr> \<and>
   \<not> exactWhiteOrRed edgeField 0"
proof -
  have s: "sampleIdx halfRandom [0, 1] 0 = 1"
    by (simp add: sampleIdx_def halfRandom_def)
  have nc: "normalizedColor (imageData edgeCanvas loveText) 1
     = \<lparr> red = 128 / 255, green = 128 / 255, blue = 128 / 255 \<rparr>"
    by (simp add: normalizedColor_def edgeCanvas_data)
  have tp: "textParticle halfRandom 60 canvasHeight [0, 1]
      (map (normalizedColor (imageData edgeCanvas loveText)) [0, 1]) 0 (zeroField 1)
      = Inr edgeField"
    unfolding textParticle_def Let_def s
    using nc by (simp add: placeParticle_def zeroField_def edgeField_def canvasHeight_def
        numeral_3_eq_3)
  have up: "[0..<1] = [0::nat]" by simp
  have "generateTextParticles (Some edgeCanvas) halfRandom loveText 1 = Inr edgeField"
    unfolding generateTextParticles_Some edgeCanvas_litIndices demo_canvas_size up
      forEachParticle.simps tp
    by simp
  moreover have "\<not> exactWhiteOrRed edgeField 0"
    by (simp add: exactWhiteOrRed_def edgeField_def)
  ultimately show ?thesis using nc edgeCanvas_lit(2) by blast
qed

text \<open>
  C6, amended. Every lit pixel (a channel above 30 of 255) is paired with its own
  rasterised RGB bytes divided by 255. With \<open>Math.random\<close> in \<open>[0, 1)\<close> and some lit
  pixel, the colour of every particle of a text field is the normalised colour of a lit
  pixel, so one of its channels exceeds 30/255. The glyph colours are fill styles of the
  drawing commands only: white for \<open>I\<close> and \<open>U\<close>, red for the heart, white for any
  other text.
\<close>

theorem text_colors_from_pixels:
  assumes "unitRandom rnd"
    and "\<exists>p < canvasWidth c text * canvasHeight. isLit (imageData c text) p"
    and "i < n"
    and "length (imageData c text) = 4 * canvasWidth c text * canvasHeight"
  shows
    "(let data = imageData c text; w = canvasWidth c text; h = canvasHeight
      in litPixels data w h =
           (filter (isLit data) [0..<w * h],
            map (normalizedColor data) (filter (isLit data) [0..<w * h])) \<and>
         (\<exists>f p. generateTextParticles (Some c) rnd text n = Inr f \<and>
            p < w * h \<and> isLit data p \<and>
            colors f ! (3 * i) = real (data ! (p * 4)) / 255 \<and>
            colors f ! (3 * i + 1) = real (data ! (p * 4 + 1)) / 255 \<and>
            colors f ! (3 * i + 2) = real (data ! (p * 4 + 2)) / 255 \<and>
            (30 / 255 < colors f ! (3 * i) \<or> 30 / 255 < colors f ! (3 * i + 1) \<or>
             30 / 255 < colors f ! (3 * i + 2))) \<and>
         drawCommands loveText W H =
           [FillRect ''#000000'' 0 0 W H,
            FillText ''#FFFFFF'' ArialFont ''I'' (W / 2 - 144) (H / 2),
            FillText ''#FF0000'' EmojiFont heartGlyph (W / 2) (H / 2),
            FillText ''#FFFFFF'' ArialFont ''U'' (W / 2 + 144) (H / 2)] \<and>
         (text \<noteq> loveText \<longrightarrow>
            drawCommands text W H =
              [FillRect ''#000000'' 0 0 W H,
               FillText ''#FFFFFF'' ArialFont text (W / 2) (H / 2)]))"
proof -
  let ?D = "imageData c text"
  from assms(2) have ne: "litIndices c text \<noteq> []"
    using litIndices_member [where c = c] by (metis empty_iff list.set(1))
  from text_particle_color [OF assms(1) ne assms(3)] obtain f p
    where g: "generateTextParticles (Some c) rnd text n = Inr f"
      and p: "p \<in> set (litIndices c text)"
      and c: "colors f ! (3 * i) = red (normalizedColor ?D p)"
        "colors f ! (3 * i + 1) = green (normalizedColor ?D p)"
        "colors f ! (3 * i + 2) = blue (normalizedColor ?D p)"
    by blast
  from p have pl: "p < canvasWidth c text * canvasHeight" and lit: "isLit ?D p"
    by (simp_all add: litIndices_member)
  have v: "colors f ! (3 * i) = real (?D ! (p * 4)) / 255"
    "colors f ! (3 * i + 1) = real (?D ! (p * 4 + 1)) / 255"
    "colors f ! (3 * i + 2) = real (?D ! (p * 4 + 2)) / 255"
    unfolding c by (simp_all add: normalizedColor_def)
  from lit have b: "30 / 255 < colors f ! (3 * i) \<or> 30 / 255 < colors f ! (3 * i + 1) \<or>
      30 / 255 < colors f ! (3 * i + 2)"
    unfolding v isLit_def by auto
  from g pl lit v b have ex: "\<exists>f p. generateTextParticles (Some c) rnd text n = Inr f \<and>
      p < canvasWidth c text * canvasHeight \<and> isLit ?D p \<and>
      colors f ! (3 * i) = real (?D ! (p * 4)) / 255 \<and>
      colors f ! (3 * i + 1) = real (?D ! (p * 4 + 1)) / 255 \<and>
      colors f ! (3 * i + 2) = real (?D ! (p * 4 + 2)) / 255 \<and>
      (30 / 255 < colors f ! (3 * i) \<or> 30 / 255 < colors f ! (3 * i + 1) \<or>
       30 / 255 < colors f ! (3 * i + 2))"
    by blast
  show ?thesis
    unfolding Let_def
    using ex litPixels_eq [of ?D "canvasWidth c text" canvasHeight]
      drawCommands_love [of W H] drawCommands_plain [where W = W and H = H]
    by blast
qed

text \<open>C6, amended, at the canvas with two lit pixels.\<close>

theorem text_colors_from_pixels_witness:
  "unitRandom halfRandom \<and>
   (\<exists>p < canvasWidth edgeCanvas loveText * canvasHeight.
      isLit (imageData edgeCanvas loveText) p) \<and>
   (0::nat) < 1 \<and>
   length (imageData edgeCanvas loveText) = 4 * canvasWidth edgeCanvas loveText * canvasHeight \<and>
   (\<exists>f p. generateTextParticles (Some edgeCanvas) halfRandom loveText 1 = Inr f \<and>
      p < canvasWidth edgeCanvas loveText * canvasHeight \<and>
      isLit (imageData edgeCanvas loveText) p \<and>
      colors f ! (3 * 0) = real (imageData edgeCanvas loveText ! (p * 4)) / 255 \<and>
      colors f ! (3 * 0 + 1) = real (imageData edgeCanvas loveText ! (p * 4 + 1)) / 255 \<and>
      colors f ! (3 * 0 + 2) = real (imageData edgeCanvas loveText ! (p * 4 + 2)) / 255)"
proof -
  have u: "unitRandom halfRandom" by (rule unitRandom_demo)
  have "(0::nat) < canvasWidth edgeCanvas loveText * canvasHeight"
    by (simp add: demo_canvas_size canvasHeight_def)
  with edgeCanvas_lit(1) [of loveText]
  have e: "\<exists>p < canvasWidth edgeCanvas loveText * canvasHeight.
      isLit (imageData edgeCanvas loveText) p"
    by blast
  have i: "(0::nat) < 1" by simp
  have l: "length (imageData edgeCanvas loveText)
      = 4 * canvasWidth edgeCanvas loveText * canvasHeight"
    by (simp add: edgeCanvas_data demo_canvas_size canvasHeight_def)
  from text_colors_from_pixels [OF u e i l, unfolded Let_def] u e i l
  show ?thesis by blast
qed

end
